theory Spec2Isabelle
  imports Main
begin

section \<open>The statusbar widget: \<^verbatim>\<open>qutebrowser/widgets/statusbar/bar.py\<close>\<close>

subsection \<open>Python values used by the class\<close>

text \<open>
  The exceptions that occur. \<^verbatim>\<open>deque.popleft()\<close> raises
  \<^verbatim>\<open>IndexError\<close> on an empty deque; \<^verbatim>\<open>QTimer.setInterval\<close> raises \<^verbatim>\<open>OverflowError\<close> for an
  integer that does not fit its C \<^verbatim>\<open>int\<close> parameter; the utility helpers raise
  \<^verbatim>\<open>ValueError\<close>.
\<close>

datatype py_error = IndexError | ValueError | OverflowError

text \<open>
  \<^verbatim>\<open>collections.deque\<close>, used only through \<^verbatim>\<open>append\<close>, \<^verbatim>\<open>popleft\<close> and its truth
  value: a list whose head is the left end.
\<close>

type_synonym 'a deque = "'a list"

definition deque_append :: "'a deque \<Rightarrow> 'a \<Rightarrow> 'a deque" where
  "deque_append q x = q @ [x]"

definition popleft :: "'a deque \<Rightarrow> py_error + ('a \<times> 'a deque)" where
  "popleft q = (case q of [] \<Rightarrow> Inl IndexError | x # rest \<Rightarrow> Inr (x, rest))"

text \<open>
  \<^verbatim>\<open>QTimer\<close>: whether it is active, and its interval. \<^verbatim>\<open>start()\<close> starts the timer, or
  stops and restarts it when it is already running; either way it is active afterwards.
  \<^verbatim>\<open>setInterval\<close> takes a C \<^verbatim>\<open>int\<close> of 32 bits: a Python integer outside
  \<open>-2\<^sup>3\<^sup>1 \<dots> 2\<^sup>3\<^sup>1 - 1\<close> raises \<^verbatim>\<open>OverflowError\<close> when the argument is converted, and the
  timer keeps its interval.
\<close>

record qtimer =
  active :: bool
  interval :: int

definition timer_start :: "qtimer \<Rightarrow> qtimer" where
  "timer_start t = t\<lparr>active := True\<rparr>"

definition timer_stop :: "qtimer \<Rightarrow> qtimer" where
  "timer_stop t = t\<lparr>active := False\<rparr>"

definition isActive :: "qtimer \<Rightarrow> bool" where
  "isActive t = active t"

definition c_int :: "int \<Rightarrow> bool" where
  "c_int n = (- 2147483648 \<le> n \<and> n \<le> 2147483647)"

definition setInterval :: "qtimer \<Rightarrow> int \<Rightarrow> py_error + qtimer" where
  "setInterval t msec = (if c_int msec then Inr (t\<lparr>interval := msec\<rparr>) else Inl OverflowError)"

text \<open>The \<^verbatim>\<open>Text\<close> child widget, as far as the statusbar writes to it.\<close>

record text_widget =
  temptext :: string
  normaltext :: string

text \<open>The two widgets of the \<^verbatim>\<open>QStackedLayout\<close>; one of them is current.\<close>

datatype stack_widget = Cmd | Txt

text \<open>
  Points, rectangles and the two events of the toolkit: a \<^verbatim>\<open>QResizeEvent\<close> with its
  \<^verbatim>\<open>size()\<close> and \<^verbatim>\<open>oldSize()\<close>, a \<^verbatim>\<open>QMoveEvent\<close> with its \<^verbatim>\<open>pos()\<close> and \<^verbatim>\<open>oldPos()\<close>.
\<close>

type_synonym qpoint = "int \<times> int"
type_synonym qrect = "int \<times> int \<times> int \<times> int"

record qresize_event =
  size_new :: "int \<times> int"
  size_old :: "int \<times> int"

record qmove_event =
  pos :: qpoint
  oldPos :: qpoint

text \<open>The signals of the class, with their arguments.\<close>

datatype signal = Resized qrect | Moved qpoint

subsection \<open>The state of a \<^verbatim>\<open>StatusBar\<close>\<close>

text \<open>
  \<open>error\<close> is the attribute \<^verbatim>\<open>_error\<close> behind the Qt property; \<open>emitted\<close> is the log of
  the signals emitted so far, oldest first.
\<close>

record statusbar =
  error :: bool
  txt_widget :: text_widget
  text_queue :: "(bool \<times> string) deque"
  text_pop_timer :: qtimer
  stack_current :: stack_widget
  geometry :: qrect
  emitted :: "signal list"

text \<open>
  The setter of the \<^verbatim>\<open>error\<close> property stores the value and re-sets the stylesheet; the
  stylesheet is rendering state of the toolkit and not part of this model.
\<close>

definition set_error :: "bool \<Rightarrow> statusbar \<Rightarrow> statusbar" where
  "set_error val s = s\<lparr>error := val\<rparr>"

definition set_temptext :: "string \<Rightarrow> statusbar \<Rightarrow> statusbar" where
  "set_temptext val s = s\<lparr>txt_widget := (txt_widget s)\<lparr>temptext := val\<rparr>\<rparr>"

definition set_normaltext :: "string \<Rightarrow> statusbar \<Rightarrow> statusbar" where
  "set_normaltext val s = s\<lparr>txt_widget := (txt_widget s)\<lparr>normaltext := val\<rparr>\<rparr>"

subsection \<open>The methods\<close>

text \<open>
  \<^verbatim>\<open>_pop_text\<close>. The \<^verbatim>\<open>except IndexError\<close> clause catches the one exception of
  \<^verbatim>\<open>popleft\<close>; any other exception would propagate. The two \<^verbatim>\<open>logging.debug\<close> calls
  of the second branch write to the log only and are left out.
\<close>

definition pop_text :: "statusbar \<Rightarrow> py_error + statusbar" where
  "pop_text s =
     (case popleft (text_queue s) of
        Inl IndexError \<Rightarrow>
          Inr ((set_temptext '''' (set_error False s))
                 \<lparr>text_pop_timer := timer_stop (text_pop_timer s)\<rparr>)
      | Inl e \<Rightarrow> Inl e
      | Inr ((err, text), rest) \<Rightarrow>
          Inr (set_temptext text (set_error err (s\<lparr>text_queue := rest\<rparr>))))"

text \<open>\<^verbatim>\<open>_show_cmd_widget\<close>.\<close>

definition show_cmd_widget :: "statusbar \<Rightarrow> statusbar" where
  "show_cmd_widget s =
     s\<lparr>text_pop_timer := timer_stop (text_pop_timer s), stack_current := Cmd\<rparr>"

text \<open>
  \<^verbatim>\<open>_hide_cmd_widget\<close>. A deque is true when it is not empty. An exception of
  \<^verbatim>\<open>_pop_text\<close> would leave the method before the timer is started and before the stack
  is switched.
\<close>

definition hide_cmd_widget :: "statusbar \<Rightarrow> py_error + statusbar" where
  "hide_cmd_widget s =
     (if text_queue s \<noteq> [] \<and> \<not> isActive (text_pop_timer s)
      then (case pop_text s of
              Inl e \<Rightarrow> Inl e
            | Inr s1 \<Rightarrow>
                Inr (s1\<lparr>text_pop_timer := timer_start (text_pop_timer s1),
                         stack_current := Txt\<rparr>))
      else Inr (s\<lparr>stack_current := Txt\<rparr>))"

text \<open>\<^verbatim>\<open>disp_error\<close> and \<^verbatim>\<open>disp_temp_text\<close>.\<close>

definition disp_error :: "string \<Rightarrow> statusbar \<Rightarrow> statusbar" where
  "disp_error text s =
     s\<lparr>text_queue := deque_append (text_queue s) (True, text),
       text_pop_timer := timer_start (text_pop_timer s)\<rparr>"

definition disp_temp_text :: "string \<Rightarrow> statusbar \<Rightarrow> statusbar" where
  "disp_temp_text text s =
     s\<lparr>text_queue := deque_append (text_queue s) (False, text),
       text_pop_timer := timer_start (text_pop_timer s)\<rparr>"

text \<open>\<^verbatim>\<open>set_text\<close>.\<close>

definition set_text :: "string \<Rightarrow> statusbar \<Rightarrow> statusbar" where
  "set_text val s = set_normaltext val s"

text \<open>
  \<^verbatim>\<open>on_mode_entered\<close> and \<^verbatim>\<open>on_mode_left\<close>. The list of passthrough modes belongs to the
  mode manager and is a parameter. \<^verbatim>\<open>str.upper\<close> is modelled on ASCII letters.
\<close>

definition upper_char :: "char \<Rightarrow> char" where
  "upper_char c =
     (let n = (of_char c :: nat) in if 97 \<le> n \<and> n \<le> 122 then char_of (n - 32) else c)"

definition upper :: "string \<Rightarrow> string" where
  "upper str = map upper_char str"

definition on_mode_entered :: "string list \<Rightarrow> string \<Rightarrow> statusbar \<Rightarrow> statusbar" where
  "on_mode_entered passthrough mode s =
     (if mode \<in> set passthrough
      then set_normaltext (''-- '' @ upper mode @ '' MODE --'') s
      else s)"

definition on_mode_left :: "string list \<Rightarrow> string \<Rightarrow> statusbar \<Rightarrow> statusbar" where
  "on_mode_left passthrough mode s =
     (if mode \<in> set passthrough then set_normaltext '''' s else s)"

text \<open>\<^verbatim>\<open>on_statusbar_message\<close>. A string is true when it is not empty.\<close>

definition on_statusbar_message :: "string \<Rightarrow> statusbar \<Rightarrow> statusbar" where
  "on_statusbar_message val s = (if val \<noteq> [] then set_temptext val s else s)"

text \<open>
  \<^verbatim>\<open>on_config_changed\<close>. \<open>cfg\<close> is the integer that
  \<^verbatim>\<open>config.get('general', 'message-timeout')\<close> returns at the time of the call. An
  exception of \<^verbatim>\<open>setInterval\<close> leaves the method; nothing has been changed by then.
\<close>

definition on_config_changed ::
  "int \<Rightarrow> string \<Rightarrow> string \<Rightarrow> statusbar \<Rightarrow> py_error + statusbar" where
  "on_config_changed cfg section option s =
     (if section = ''general'' \<and> option = ''message-timeout''
      then (case setInterval (text_pop_timer s) cfg of
              Inl e \<Rightarrow> Inl e
            | Inr t \<Rightarrow> Inr (s\<lparr>text_pop_timer := t\<rparr>))
      else Inr s)"

text \<open>
  \<^verbatim>\<open>resizeEvent\<close> and \<^verbatim>\<open>moveEvent\<close>. The handler of the base class \<^verbatim>\<open>QWidget\<close> is a
  parameter \<open>base\<close>; it acts on the geometry, the part of the state that the base class
  owns. \<^verbatim>\<open>self.geometry()\<close> is read after the base handler has run.
\<close>

definition resizeEvent ::
  "(qresize_event \<Rightarrow> qrect \<Rightarrow> qrect) \<Rightarrow> qresize_event \<Rightarrow> statusbar \<Rightarrow> statusbar" where
  "resizeEvent base e s =
     (let s1 = s\<lparr>geometry := base e (geometry s)\<rparr>
      in s1\<lparr>emitted := emitted s1 @ [Resized (geometry s1)]\<rparr>)"

definition moveEvent ::
  "(qmove_event \<Rightarrow> qrect \<Rightarrow> qrect) \<Rightarrow> qmove_event \<Rightarrow> statusbar \<Rightarrow> statusbar" where
  "moveEvent base e s =
     (let s1 = s\<lparr>geometry := base e (geometry s)\<rparr>
      in s1\<lparr>emitted := emitted s1 @ [Moved (pos e)]\<rparr>)"

subsection \<open>Construction\<close>

text \<open>
  \<^verbatim>\<open>__init__\<close>, as far as it touches the state above. \<open>cfg\<close> is the configured
  message timeout, \<open>t0\<close> the freshly constructed \<^verbatim>\<open>Text\<close> widget and \<open>geom\<close> the
  geometry the toolkit gives the new widget. \<^verbatim>\<open>_error\<close> is \<^verbatim>\<open>False\<close> as a class
  attribute, a new \<^verbatim>\<open>QTimer\<close> is inactive with interval 0, and \<^verbatim>\<open>cmd\<close>, the first widget
  added to the stack, is current until \<^verbatim>\<open>_hide_cmd_widget\<close> is called. An exception of
  \<^verbatim>\<open>setInterval\<close> ends the construction.
\<close>

definition init :: "int \<Rightarrow> text_widget \<Rightarrow> qrect \<Rightarrow> py_error + statusbar" where
  "init cfg t0 geom =
     (case setInterval \<lparr>active = False, interval = 0\<rparr> cfg of
        Inl e \<Rightarrow> Inl e
      | Inr t \<Rightarrow>
          hide_cmd_widget
            \<lparr>error = False, txt_widget = t0, text_queue = [], text_pop_timer = t,
             stack_current = Cmd, geometry = geom, emitted = []\<rparr>)"

subsection \<open>The widget as a state machine\<close>

text \<open>
  What the event loop can deliver to the widget: the slots, the \<^verbatim>\<open>timeout\<close> signal of
  the pop timer (connected to \<^verbatim>\<open>_pop_text\<close>), the two signals of the command widget
  (connected to \<^verbatim>\<open>_show_cmd_widget\<close> and \<^verbatim>\<open>_hide_cmd_widget\<close>) and the two overridden
  event handlers. \<open>ConfigChanged\<close> carries the configured timeout at that moment.
\<close>

datatype event =
    DispError string
  | DispTempText string
  | Tick
  | ShowCmd
  | HideCmd
  | SetText string
  | ModeEntered string
  | ModeLeft string
  | StatusbarMessage string
  | ConfigChanged int string string
  | ResizeEvent qresize_event
  | MoveEvent qmove_event

text \<open>What the rest of the program and the toolkit supply.\<close>

record toolkit =
  passthrough :: "string list"
  base_resizeEvent :: "qresize_event \<Rightarrow> qrect \<Rightarrow> qrect"
  base_moveEvent :: "qmove_event \<Rightarrow> qrect \<Rightarrow> qrect"

text \<open>
  The toolkit fires \<^verbatim>\<open>timeout\<close> only while the timer is active. \<open>step\<close> admits a
  \<open>Tick\<close> in every state: this adds behaviours and removes none, so what holds of every
  state reachable here holds of every state the running widget reaches.
\<close>

fun step :: "toolkit \<Rightarrow> statusbar \<Rightarrow> event \<Rightarrow> py_error + statusbar" where
  "step tk s (DispError t) = Inr (disp_error t s)"
| "step tk s (DispTempText t) = Inr (disp_temp_text t s)"
| "step tk s Tick = pop_text s"
| "step tk s ShowCmd = Inr (show_cmd_widget s)"
| "step tk s HideCmd = hide_cmd_widget s"
| "step tk s (SetText v) = Inr (set_text v s)"
| "step tk s (ModeEntered m) = Inr (on_mode_entered (passthrough tk) m s)"
| "step tk s (ModeLeft m) = Inr (on_mode_left (passthrough tk) m s)"
| "step tk s (StatusbarMessage v) = Inr (on_statusbar_message v s)"
| "step tk s (ConfigChanged cfg sec opt) = on_config_changed cfg sec opt s"
| "step tk s (ResizeEvent e) = Inr (resizeEvent (base_resizeEvent tk) e s)"
| "step tk s (MoveEvent e) = Inr (moveEvent (base_moveEvent tk) e s)"

text \<open>A run stops at the first exception, as the interpreter would.\<close>

fun run :: "toolkit \<Rightarrow> event list \<Rightarrow> statusbar \<Rightarrow> py_error + statusbar" where
  "run tk [] s = Inr s"
| "run tk (e # es) s = (case step tk s e of Inl x \<Rightarrow> Inl x | Inr s' \<Rightarrow> run tk es s')"

inductive reachable :: "toolkit \<Rightarrow> statusbar \<Rightarrow> bool" for tk :: toolkit where
  reachable_init: "init cfg t0 geom = Inr s \<Longrightarrow> reachable tk s"
| reachable_step: "reachable tk s \<Longrightarrow> step tk s e = Inr s' \<Longrightarrow> reachable tk s'"

text \<open>\<open>n\<close> consecutive timer ticks, and a list of messages handed to the producers.\<close>

fun ticks :: "nat \<Rightarrow> statusbar \<Rightarrow> py_error + statusbar" where
  "ticks 0 s = Inr s"
| "ticks (Suc n) s = (case pop_text s of Inl x \<Rightarrow> Inl x | Inr s' \<Rightarrow> ticks n s')"

fun produce :: "bool \<times> string \<Rightarrow> statusbar \<Rightarrow> statusbar" where
  "produce (True, t) s = disp_error t s"
| "produce (False, t) s = disp_temp_text t s"

fun produce_all :: "(bool \<times> string) list \<Rightarrow> statusbar \<Rightarrow> statusbar" where
  "produce_all [] s = s"
| "produce_all (m # ms) s = produce_all ms (produce m s)"

subsection \<open>Observing a run\<close>

text \<open>
  The messages that the producer calls of an event list hand in, in order; what a step
  from \<open>s\<close> to \<open>s'\<close> has taken out of the queue, read off the display: when the queue
  became shorter, the pair of the error flag and the temporary text of \<open>s'\<close>; and the
  messages taken out along a run, in order.
\<close>

fun enqueued :: "event list \<Rightarrow> (bool \<times> string) list" where
  "enqueued [] = []"
| "enqueued (DispError t # es) = (True, t) # enqueued es"
| "enqueued (DispTempText t # es) = (False, t) # enqueued es"
| "enqueued (e # es) = enqueued es"

definition popped :: "statusbar \<Rightarrow> statusbar \<Rightarrow> (bool \<times> string) list" where
  "popped s s' =
     (if length (text_queue s') < length (text_queue s)
      then [(error s', temptext (txt_widget s'))] else [])"

fun consumed :: "toolkit \<Rightarrow> event list \<Rightarrow> statusbar \<Rightarrow> (bool \<times> string) list" where
  "consumed tk [] s = []"
| "consumed tk (e # es) s =
     (case step tk s e of Inl x \<Rightarrow> [] | Inr s' \<Rightarrow> popped s s' @ consumed tk es s')"

text \<open>
  What the user can see of a state: which widget of the stack is current, whether the
  pop timer is running, and the error flag and temporary text that the text widget
  holds. The text widget is on view only while it is the current widget. \<open>views\<close>
  lists this for the state after each step of a run.
\<close>

definition view :: "statusbar \<Rightarrow> stack_widget \<times> bool \<times> bool \<times> string" where
  "view s = (stack_current s, isActive (text_pop_timer s), error s, temptext (txt_widget s))"

fun views ::
  "toolkit \<Rightarrow> event list \<Rightarrow> statusbar \<Rightarrow> (stack_widget \<times> bool \<times> bool \<times> string) list" where
  "views tk [] s = []"
| "views tk (e # es) s =
     (case step tk s e of Inl x \<Rightarrow> [] | Inr s' \<Rightarrow> view s' # views tk es s')"

subsection \<open>Example inputs\<close>

text \<open>
  A toolkit whose base handlers leave the geometry alone (\<open>curry snd\<close> returns its
  second argument), and the widget right after
  construction with a timeout of 2000 ms and empty texts. The examples below start
  from these.
\<close>

abbreviation example_toolkit :: toolkit where
  "example_toolkit \<equiv>
     \<lparr>passthrough = [''insert'', ''passthrough''],
      base_resizeEvent = curry snd, base_moveEvent = curry snd\<rparr>"

abbreviation fresh_statusbar :: statusbar where
  "fresh_statusbar \<equiv>
     \<lparr>error = False, txt_widget = \<lparr>temptext = '''', normaltext = ''''\<rparr>, text_queue = [],
      text_pop_timer = \<lparr>active = False, interval = 2000\<rparr>,
      stack_current = Txt, geometry = (0, 0, 800, 20), emitted = []\<rparr>"

section \<open>Utility helpers: \<^verbatim>\<open>utils.elide\<close> and \<^verbatim>\<open>utils.parse_duration\<close>\<close>

text \<open>
  Modelled from the spec: \<^verbatim>\<open>utils.elide\<close>. Its module, \<^verbatim>\<open>qutebrowser/utils/utils.py\<close>,
  is not among the sources; \<^verbatim>\<open>tests/unit/utils/test_utils.py\<close> calls it. The spec says
  that zero-size eliding raises an exception, and \<^verbatim>\<open>TestEliding\<close> fixes the results:
  \<^verbatim>\<open>ValueError\<close> for length 0, the text itself when it fits, and otherwise its first
  \<open>length - 1\<close> characters followed by the ellipsis character. A text is a list of
  characters of any type; the ellipsis (U+2026, one character in Python) is the
  parameter \<open>ell\<close>.
\<close>

definition elide :: "'c \<Rightarrow> 'c list \<Rightarrow> int \<Rightarrow> py_error + 'c list" where
  "elide ell text len =
     (if len < 1 then Inl ValueError
      else if int (length text) \<le> len then Inr text
      else Inr (take (nat (len - 1)) text @ [ell]))"

text \<open>
  Modelled from the spec: the character classes that the model of
  \<^verbatim>\<open>utils.parse_duration\<close> reads its input with, restricted to ASCII: the decimal digits,
  and the blanks space, TAB, LF, VT, FF and CR.
\<close>

definition isdigit :: "char \<Rightarrow> bool" where
  "isdigit c = (let n = (of_char c :: nat) in 48 \<le> n \<and> n \<le> 57)"

definition isspace :: "char \<Rightarrow> bool" where
  "isspace c = (let n = (of_char c :: nat) in n = 32 \<or> (9 \<le> n \<and> n \<le> 13))"

text \<open>
  Modelled from the spec: a plain number of milliseconds, as in the test strings \<^verbatim>\<open>0\<close>
  and \<^verbatim>\<open>60\<close>, is a non-empty string of digits (\<^verbatim>\<open>str.isdigit()\<close> on ASCII), read in
  base ten.
\<close>

definition str_isdigit :: "string \<Rightarrow> bool" where
  "str_isdigit str = (str \<noteq> [] \<and> list_all isdigit str)"

definition digit_val :: "char \<Rightarrow> int" where
  "digit_val c = int (of_char c) - 48"

definition int_of_digits :: "string \<Rightarrow> int" where
  "int_of_digits str = foldl (\<lambda>a c. 10 * a + digit_val c) 0 str"

text \<open>
  Modelled from the spec: one part of a duration, as in the test strings \<^verbatim>\<open>0.5h\<close>,
  \<^verbatim>\<open>1m\<close> and \<^verbatim>\<open>60.4s\<close>: a decimal number with at most one digit after the point,
  followed by the unit letter \<open>u\<close>. \<open>scan_part u xs\<close> reads such a part from the front
  of \<open>xs\<close> and returns its value in tenths of the unit together with the rest of the
  input; when \<open>xs\<close> does not start with a part of unit \<open>u\<close> it returns \<open>None\<close> and the
  input as it was.
\<close>

definition scan_part :: "char \<Rightarrow> string \<Rightarrow> int option \<times> string" where
  "scan_part u xs =
     (let ds = takeWhile isdigit xs; r = dropWhile isdigit xs
      in if ds = [] then (None, xs)
         else (case r of
                 [] \<Rightarrow> (None, xs)
               | c # r1 \<Rightarrow>
                   if c = u then (Some (10 * int_of_digits ds), r1)
                   else if c = CHR ''.'' then
                     (case r1 of
                        f # c2 # r2 \<Rightarrow>
                          if isdigit f \<and> c2 = u
                          then (Some (10 * int_of_digits ds + digit_val f), r2)
                          else (None, xs)
                      | _ \<Rightarrow> (None, xs))
                   else (None, xs)))"

definition tenths :: "int option \<Rightarrow> int" where
  "tenths p = (case p of None \<Rightarrow> 0 | Some t \<Rightarrow> t)"

text \<open>
  Modelled from the spec: \<^verbatim>\<open>utils.parse_duration\<close>, of the same missing module. The spec
  says that an invalid duration string raises an exception; \<^verbatim>\<open>test_parse_duration\<close> and
  \<^verbatim>\<open>test_parse_duration_invalid\<close> fix the results on 28 strings. The model accepts a
  plain number of milliseconds, or an hours part, a minutes part and a seconds part, each
  optional, in this order, with optional blanks between them, the whole not empty; it
  returns milliseconds and raises \<^verbatim>\<open>ValueError\<close> for every other string. The values
  are computed exactly, in tenths of a unit; the rounding of Python's floats is not
  modelled.
\<close>

definition parse_duration :: "string \<Rightarrow> py_error + int" where
  "parse_duration duration =
     (if str_isdigit duration then Inr (int_of_digits duration)
      else
        (let (hours, r1) = scan_part CHR ''h'' duration;
             r2 = dropWhile isspace r1;
             (minutes, r3) = scan_part CHR ''m'' r2;
             r4 = dropWhile isspace r3;
             (seconds, r5) = scan_part CHR ''s'' r4
         in if r5 \<noteq> [] \<or> duration = [] then Inl ValueError
            else Inr (tenths seconds * 100 + tenths minutes * 60 * 100
                        + tenths hours * 3600 * 100)))"

text \<open>
  Modelled from the spec: the shape of a well-formed duration, stated on the string
  alone: a number with at
  most one digit after the point; a part, which is empty or a number followed by its
  unit letter; and a duration, which is a plain number of milliseconds or a non-empty
  string made of an hours part, blanks, a minutes part, blanks and a seconds part. A
  string is malformed when it does not have this shape.
\<close>

definition number_shape :: "string \<Rightarrow> bool" where
  "number_shape n =
     (\<exists>i. i \<noteq> [] \<and> list_all isdigit i \<and>
          (n = i \<or> (\<exists>f. isdigit f \<and> n = i @ [CHR ''.'', f])))"

definition part_shape :: "char \<Rightarrow> string \<Rightarrow> bool" where
  "part_shape u p = (p = [] \<or> (\<exists>n. number_shape n \<and> p = n @ [u]))"

definition duration_shape :: "string \<Rightarrow> bool" where
  "duration_shape d =
     (str_isdigit d \<or>
      (d \<noteq> [] \<and>
       (\<exists>h w1 m w2 s.
          d = h @ w1 @ m @ w2 @ s \<and>
          part_shape CHR ''h'' h \<and> list_all isspace w1 \<and>
          part_shape CHR ''m'' m \<and> list_all isspace w2 \<and>
          part_shape CHR ''s'' s)))"

section \<open>Timer ticks\<close>

lemma popleft_Nil: "popleft [] = Inl IndexError"
  by (simp add: popleft_def)

lemma popleft_Cons: "popleft (x # rest) = Inr (x, rest)"
  by (simp add: popleft_def)

lemma pop_text_Nil:
  "text_queue s = [] \<Longrightarrow>
   pop_text s = Inr (s\<lparr>error := False, txt_widget := (txt_widget s)\<lparr>temptext := ''''\<rparr>,
                        text_pop_timer := (text_pop_timer s)\<lparr>active := False\<rparr>\<rparr>)"
  by (simp add: pop_text_def popleft_Nil set_temptext_def set_error_def timer_stop_def)

lemma pop_text_Cons:
  "text_queue s = (err, msg) # rest \<Longrightarrow>
   pop_text s = Inr (s\<lparr>text_queue := rest, error := err,
                        txt_widget := (txt_widget s)\<lparr>temptext := msg\<rparr>\<rparr>)"
  by (simp add: pop_text_def popleft_Cons set_temptext_def set_error_def)

lemma pop_text_total: "\<exists>s'. pop_text s = Inr s'"
proof (cases "text_queue s")
  case Nil
  then show ?thesis by (simp add: pop_text_Nil)
next
  case (Cons m rest)
  then show ?thesis by (cases m) (simp add: pop_text_Cons)
qed

text \<open>
  C2: in a state whose queue is not empty, \<^verbatim>\<open>_pop_text\<close> returns normally. The queue
  loses exactly its head and keeps the rest in order, the error flag becomes the head's
  flag, the temporary text becomes the head's text, and nothing else changes.
\<close>

theorem pop_text_pops_head:
  assumes "text_queue s \<noteq> []"
  shows "text_queue s = hd (text_queue s) # tl (text_queue s) \<and>
         pop_text s =
           Inr (s\<lparr>text_queue := tl (text_queue s),
                   error := fst (hd (text_queue s)),
                   txt_widget := (txt_widget s)\<lparr>temptext := snd (hd (text_queue s))\<rparr>\<rparr>)"
proof -
  from assms obtain err msg rest where q: "text_queue s = (err, msg) # rest"
    by (cases "text_queue s") auto
  show ?thesis
    using pop_text_Cons [OF q] by (simp add: q)
qed

theorem pop_text_pops_head_witness:
  "text_queue \<lparr>error = False, txt_widget = \<lparr>temptext = ''old'', normaltext = ''n''\<rparr>,
      text_queue = [(True, ''first''), (False, ''second'')],
      text_pop_timer = \<lparr>active = True, interval = 2000\<rparr>,
      stack_current = Txt, geometry = (0, 0, 800, 20), emitted = []\<rparr> \<noteq> [] \<and>
   pop_text \<lparr>error = False, txt_widget = \<lparr>temptext = ''old'', normaltext = ''n''\<rparr>,
      text_queue = [(True, ''first''), (False, ''second'')],
      text_pop_timer = \<lparr>active = True, interval = 2000\<rparr>,
      stack_current = Txt, geometry = (0, 0, 800, 20), emitted = []\<rparr> =
   Inr \<lparr>error = True, txt_widget = \<lparr>temptext = ''first'', normaltext = ''n''\<rparr>,
      text_queue = [(False, ''second'')],
      text_pop_timer = \<lparr>active = True, interval = 2000\<rparr>,
      stack_current = Txt, geometry = (0, 0, 800, 20), emitted = []\<rparr>"
  using pop_text_pops_head
    [of "\<lparr>error = False, txt_widget = \<lparr>temptext = ''old'', normaltext = ''n''\<rparr>,
      text_queue = [(True, ''first''), (False, ''second'')],
      text_pop_timer = \<lparr>active = True, interval = 2000\<rparr>,
      stack_current = Txt, geometry = (0, 0, 800, 20), emitted = []\<rparr>"]
  by simp

text \<open>
  C4: in a state whose queue is empty, \<^verbatim>\<open>popleft\<close> raises \<^verbatim>\<open>IndexError\<close>, the handler
  catches it, and \<^verbatim>\<open>_pop_text\<close> returns normally: the error flag is false, the
  temporary text is empty, the timer is stopped, the queue is still empty, and nothing
  else changes.
\<close>

theorem pop_text_empty_fallback:
  assumes "text_queue s = []"
  shows "popleft (text_queue s) = Inl IndexError \<and>
         pop_text s =
           Inr (s\<lparr>error := False, txt_widget := (txt_widget s)\<lparr>temptext := ''''\<rparr>,
                   text_pop_timer := timer_stop (text_pop_timer s)\<rparr>) \<and>
         \<not> isActive (timer_stop (text_pop_timer s)) \<and>
         text_queue (s\<lparr>error := False, txt_widget := (txt_widget s)\<lparr>temptext := ''''\<rparr>,
                       text_pop_timer := timer_stop (text_pop_timer s)\<rparr>) = []"
  using assms by (simp add: pop_text_Nil popleft_Nil isActive_def timer_stop_def)

theorem pop_text_empty_fallback_witness:
  "text_queue \<lparr>error = True, txt_widget = \<lparr>temptext = ''last'', normaltext = ''n''\<rparr>,
      text_queue = [], text_pop_timer = \<lparr>active = True, interval = 2000\<rparr>,
      stack_current = Txt, geometry = (0, 0, 800, 20), emitted = []\<rparr> = [] \<and>
   pop_text \<lparr>error = True, txt_widget = \<lparr>temptext = ''last'', normaltext = ''n''\<rparr>,
      text_queue = [], text_pop_timer = \<lparr>active = True, interval = 2000\<rparr>,
      stack_current = Txt, geometry = (0, 0, 800, 20), emitted = []\<rparr> =
   Inr \<lparr>error = False, txt_widget = \<lparr>temptext = '''', normaltext = ''n''\<rparr>,
      text_queue = [], text_pop_timer = \<lparr>active = False, interval = 2000\<rparr>,
      stack_current = Txt, geometry = (0, 0, 800, 20), emitted = []\<rparr>"
  using pop_text_empty_fallback
    [of "\<lparr>error = True, txt_widget = \<lparr>temptext = ''last'', normaltext = ''n''\<rparr>,
      text_queue = [], text_pop_timer = \<lparr>active = True, interval = 2000\<rparr>,
      stack_current = Txt, geometry = (0, 0, 800, 20), emitted = []\<rparr>"]
  by (simp add: timer_stop_def)
section \<open>Producers and the order of consumption\<close>

lemma disp_error_eq:
  "disp_error t s =
     s\<lparr>text_queue := text_queue s @ [(True, t)],
       text_pop_timer := (text_pop_timer s)\<lparr>active := True\<rparr>\<rparr>"
  by (simp add: disp_error_def deque_append_def timer_start_def)

lemma disp_temp_text_eq:
  "disp_temp_text t s =
     s\<lparr>text_queue := text_queue s @ [(False, t)],
       text_pop_timer := (text_pop_timer s)\<lparr>active := True\<rparr>\<rparr>"
  by (simp add: disp_temp_text_def deque_append_def timer_start_def)

lemma produce_queue: "text_queue (produce m s) = text_queue s @ [m]"
  by (cases "(m, s)" rule: produce.cases) (simp_all add: disp_error_eq disp_temp_text_eq)

lemma produce_all_queue: "text_queue (produce_all ms s) = text_queue s @ ms"
  by (induction ms arbitrary: s) (simp_all add: produce_queue)

lemma ticks_fifo:
  "k < length (text_queue s) \<Longrightarrow>
   \<exists>s'. ticks (Suc k) s = Inr s' \<and>
        (error s', temptext (txt_widget s')) = text_queue s ! k \<and>
        text_queue s' = drop (Suc k) (text_queue s)"
proof (induction k arbitrary: s)
  case 0
  then obtain err msg rest where q: "text_queue s = (err, msg) # rest"
    by (cases "text_queue s") auto
  show ?case
    by (simp add: pop_text_Cons [OF q] q)
next
  case (Suc k)
  then obtain err msg rest where q: "text_queue s = (err, msg) # rest"
    by (cases "text_queue s") auto
  let ?s1 = "s\<lparr>text_queue := rest, error := err,
                 txt_widget := (txt_widget s)\<lparr>temptext := msg\<rparr>\<rparr>"
  from Suc.prems q have "k < length (text_queue ?s1)" by simp
  from Suc.IH [OF this] obtain s' where
    "ticks (Suc k) ?s1 = Inr s'"
    "(error s', temptext (txt_widget s')) = text_queue ?s1 ! k"
    "text_queue s' = drop (Suc k) (text_queue ?s1)"
    by blast
  then show ?case
    by (simp add: pop_text_Cons [OF q] q)
qed

section \<open>What each method leaves unchanged\<close>

lemma hide_cmd_widget_pop:
  assumes "text_queue s = (err, msg) # rest" and "\<not> isActive (text_pop_timer s)"
  shows "hide_cmd_widget s =
           Inr (s\<lparr>text_queue := rest, error := err,
                   txt_widget := (txt_widget s)\<lparr>temptext := msg\<rparr>,
                   text_pop_timer := (text_pop_timer s)\<lparr>active := True\<rparr>,
                   stack_current := Txt\<rparr>)"
  using assms by (simp add: hide_cmd_widget_def pop_text_Cons timer_start_def)

lemma hide_cmd_widget_skip:
  assumes "text_queue s = [] \<or> isActive (text_pop_timer s)"
  shows "hide_cmd_widget s = Inr (s\<lparr>stack_current := Txt\<rparr>)"
  using assms by (auto simp add: hide_cmd_widget_def)

lemma hide_cmd_widget_total: "\<exists>s'. hide_cmd_widget s = Inr s'"
proof (cases "text_queue s = [] \<or> isActive (text_pop_timer s)")
  case True
  then show ?thesis by (simp add: hide_cmd_widget_skip)
next
  case False
  then obtain err msg rest where "text_queue s = (err, msg) # rest"
    by (cases "text_queue s") auto
  with False show ?thesis by (simp add: hide_cmd_widget_pop)
qed

lemma on_config_changed_cases:
  "on_config_changed cfg sec opt s = Inr s' \<longleftrightarrow>
     (if sec = ''general'' \<and> opt = ''message-timeout''
      then c_int cfg \<and> s' = s\<lparr>text_pop_timer := (text_pop_timer s)\<lparr>interval := cfg\<rparr>\<rparr>
      else s' = s)"
  by (auto simp add: on_config_changed_def setInterval_def)

lemma on_config_changed_error:
  "on_config_changed cfg sec opt s = Inl e \<longleftrightarrow>
     sec = ''general'' \<and> opt = ''message-timeout'' \<and> \<not> c_int cfg \<and> e = OverflowError"
  by (auto simp add: on_config_changed_def setInterval_def)

lemma hide_cmd_widget_inv:
  assumes "hide_cmd_widget s = Inr s'" and "text_queue s' \<noteq> []"
  shows "isActive (text_pop_timer s')"
proof (cases "text_queue s = [] \<or> isActive (text_pop_timer s)")
  case True
  with assms show ?thesis by (auto simp add: hide_cmd_widget_skip)
next
  case False
  then obtain err msg rest where "text_queue s = (err, msg) # rest"
    by (cases "text_queue s") auto
  with False assms show ?thesis
    by (auto simp add: hide_cmd_widget_pop isActive_def)
qed

lemma pop_text_inv:
  assumes "pop_text s = Inr s'" and "text_queue s' \<noteq> []"
  shows "text_queue s \<noteq> [] \<and> text_pop_timer s' = text_pop_timer s \<and>
         stack_current s' = stack_current s"
proof (cases "text_queue s")
  case Nil
  with assms show ?thesis by (auto simp add: pop_text_Nil)
next
  case (Cons m rest)
  with assms show ?thesis by (cases m) (auto simp add: pop_text_Cons)
qed

lemma set_text_frame:
  "text_queue (set_text v s) = text_queue s \<and> text_pop_timer (set_text v s) = text_pop_timer s \<and>
   stack_current (set_text v s) = stack_current s \<and> error (set_text v s) = error s \<and>
   temptext (txt_widget (set_text v s)) = temptext (txt_widget s)"
  by (simp add: set_text_def set_normaltext_def)

lemma on_mode_entered_frame:
  "text_queue (on_mode_entered p m s) = text_queue s \<and>
   text_pop_timer (on_mode_entered p m s) = text_pop_timer s \<and>
   stack_current (on_mode_entered p m s) = stack_current s \<and>
   error (on_mode_entered p m s) = error s \<and>
   temptext (txt_widget (on_mode_entered p m s)) = temptext (txt_widget s)"
  by (simp add: on_mode_entered_def set_normaltext_def)

lemma on_mode_left_frame:
  "text_queue (on_mode_left p m s) = text_queue s \<and>
   text_pop_timer (on_mode_left p m s) = text_pop_timer s \<and>
   stack_current (on_mode_left p m s) = stack_current s \<and>
   error (on_mode_left p m s) = error s \<and>
   temptext (txt_widget (on_mode_left p m s)) = temptext (txt_widget s)"
  by (simp add: on_mode_left_def set_normaltext_def)

lemma on_statusbar_message_frame:
  "text_queue (on_statusbar_message v s) = text_queue s \<and>
   text_pop_timer (on_statusbar_message v s) = text_pop_timer s \<and>
   stack_current (on_statusbar_message v s) = stack_current s \<and>
   error (on_statusbar_message v s) = error s"
  by (simp add: on_statusbar_message_def set_temptext_def)

lemma on_config_changed_frame:
  assumes "on_config_changed cfg sec opt s = Inr s'"
  shows "text_queue s' = text_queue s \<and>
   isActive (text_pop_timer s') = isActive (text_pop_timer s) \<and>
   stack_current s' = stack_current s \<and>
   error s' = error s \<and>
   txt_widget s' = txt_widget s"
  using assms by (auto simp add: on_config_changed_cases isActive_def split: if_splits)

lemma resizeEvent_frame:
  "text_queue (resizeEvent b e s) = text_queue s \<and>
   text_pop_timer (resizeEvent b e s) = text_pop_timer s \<and>
   stack_current (resizeEvent b e s) = stack_current s \<and>
   error (resizeEvent b e s) = error s \<and>
   txt_widget (resizeEvent b e s) = txt_widget s"
  by (simp add: resizeEvent_def Let_def)

lemma moveEvent_frame:
  "text_queue (moveEvent b e s) = text_queue s \<and>
   text_pop_timer (moveEvent b e s) = text_pop_timer s \<and>
   stack_current (moveEvent b e s) = stack_current s \<and>
   error (moveEvent b e s) = error s \<and>
   txt_widget (moveEvent b e s) = txt_widget s"
  by (simp add: moveEvent_def Let_def)

lemma show_cmd_widget_frame:
  "text_queue (show_cmd_widget s) = text_queue s \<and>
   \<not> isActive (text_pop_timer (show_cmd_widget s)) \<and>
   stack_current (show_cmd_widget s) = Cmd \<and>
   error (show_cmd_widget s) = error s \<and>
   txt_widget (show_cmd_widget s) = txt_widget s"
  by (simp add: show_cmd_widget_def timer_stop_def isActive_def)

section \<open>Reachable states\<close>

lemma step_inv:
  assumes "step tk s e = Inr s'"
    and "text_queue s \<noteq> [] \<longrightarrow> isActive (text_pop_timer s) \<or> stack_current s = Cmd"
  shows "text_queue s' \<noteq> [] \<longrightarrow> isActive (text_pop_timer s') \<or> stack_current s' = Cmd"
proof (cases e)
  case (DispError t)
  with assms show ?thesis by (auto simp add: disp_error_eq isActive_def)
next
  case (DispTempText t)
  with assms show ?thesis by (auto simp add: disp_temp_text_eq isActive_def)
next
  case Tick
  with assms show ?thesis using pop_text_inv [of s s'] by auto
next
  case ShowCmd
  with assms show ?thesis by (auto simp add: show_cmd_widget_frame)
next
  case HideCmd
  with assms show ?thesis using hide_cmd_widget_inv [of s s'] by auto
next
  case (SetText v)
  with assms show ?thesis by (auto simp add: set_text_frame)
next
  case (ModeEntered m)
  with assms show ?thesis by (auto simp add: on_mode_entered_frame)
next
  case (ModeLeft m)
  with assms show ?thesis by (auto simp add: on_mode_left_frame)
next
  case (StatusbarMessage v)
  with assms show ?thesis by (auto simp add: on_statusbar_message_frame)
next
  case (ConfigChanged cfg sec opt)
  with assms have "on_config_changed cfg sec opt s = Inr s'" by simp
  from on_config_changed_frame [OF this] assms(2) show ?thesis by simp
next
  case (ResizeEvent ev)
  with assms show ?thesis by (auto simp add: resizeEvent_frame)
next
  case (MoveEvent ev)
  with assms show ?thesis by (auto simp add: moveEvent_frame)
qed

lemma init_inv:
  assumes "init cfg t0 geom = Inr s"
  shows "text_queue s = []"
  using assms
  by (auto simp add: init_def hide_cmd_widget_def setInterval_def split: if_splits)

lemma init_overflow: "\<not> c_int cfg \<Longrightarrow> init cfg t0 geom = Inl OverflowError"
  by (simp add: init_def setInterval_def)

lemma config_changed_overflow:
  "step tk s (ConfigChanged 2147483648 ''general'' ''message-timeout'') = Inl OverflowError"
  by (simp add: on_config_changed_def setInterval_def c_int_def)

lemma reachable_inv:
  "reachable tk s \<Longrightarrow>
   text_queue s \<noteq> [] \<longrightarrow> isActive (text_pop_timer s) \<or> stack_current s = Cmd"
proof (induction rule: reachable.induct)
  case (reachable_init cfg t0 geom s)
  then show ?case by (simp add: init_inv)
next
  case (reachable_step s e s')
  then show ?case using step_inv by blast
qed

lemma run_reachable:
  "reachable tk s \<Longrightarrow> run tk es s = Inr s' \<Longrightarrow> reachable tk s'"
proof (induction es arbitrary: s)
  case Nil
  then show ?case by simp
next
  case (Cons e es)
  from Cons.prems(2) obtain s1 where s1: "step tk s e = Inr s1"
    by (cases "step tk s e") auto
  with Cons.prems have "reachable tk s1" and "run tk es s1 = Inr s'"
    by (auto intro: reachable_step)
  then show ?case by (rule Cons.IH)
qed

section \<open>The queue and the timer\<close>

lemma init_fresh:
  "init 2000 \<lparr>temptext = '''', normaltext = ''''\<rparr> (0, 0, 800, 20) = Inr fresh_statusbar"
  by (simp add: init_def hide_cmd_widget_def setInterval_def c_int_def)

lemma reachable_fresh: "reachable tk fresh_statusbar"
  using init_fresh by (rule reachable_init)

lemma run_error_tick:
  "run example_toolkit [DispError ''e'', Tick] fresh_statusbar =
     Inr (fresh_statusbar\<lparr>error := True, txt_widget := \<lparr>temptext = ''e'', normaltext = ''''\<rparr>,
            text_pop_timer := \<lparr>active = True, interval = 2000\<rparr>\<rparr>)"
  by (simp add: disp_error_eq pop_text_Cons)

lemma run_error_show:
  "run example_toolkit [DispError ''e'', ShowCmd] fresh_statusbar =
     Inr (fresh_statusbar\<lparr>text_queue := [(True, ''e'')], stack_current := Cmd\<rparr>)"
  by (simp add: disp_error_eq show_cmd_widget_def timer_stop_def)

text \<open>
  C1, as stated, fails in both directions. After \<^verbatim>\<open>disp_error('e')\<close> and one tick the
  queue is empty and the timer is still active; after \<^verbatim>\<open>disp_error('e')\<close> and
  \<^verbatim>\<open>_show_cmd_widget()\<close> the queue is not empty and the timer is stopped. Both states
  are reachable from the constructed widget, and the tick of the first run happens while
  the timer is active.
\<close>

theorem queue_timer_iff_counterexample:
  "init 2000 \<lparr>temptext = '''', normaltext = ''''\<rparr> (0, 0, 800, 20) = Inr fresh_statusbar \<and>
   isActive (text_pop_timer (disp_error ''e'' fresh_statusbar)) \<and>
   pop_text (disp_error ''e'' fresh_statusbar) =
     Inr (fresh_statusbar\<lparr>error := True, txt_widget := \<lparr>temptext = ''e'', normaltext = ''''\<rparr>,
            text_pop_timer := \<lparr>active = True, interval = 2000\<rparr>\<rparr>) \<and>
   reachable example_toolkit
     (fresh_statusbar\<lparr>error := True, txt_widget := \<lparr>temptext = ''e'', normaltext = ''''\<rparr>,
        text_pop_timer := \<lparr>active = True, interval = 2000\<rparr>\<rparr>) \<and>
   text_queue
     (fresh_statusbar\<lparr>error := True, txt_widget := \<lparr>temptext = ''e'', normaltext = ''''\<rparr>,
        text_pop_timer := \<lparr>active = True, interval = 2000\<rparr>\<rparr>) = [] \<and>
   isActive (text_pop_timer
     (fresh_statusbar\<lparr>error := True, txt_widget := \<lparr>temptext = ''e'', normaltext = ''''\<rparr>,
        text_pop_timer := \<lparr>active = True, interval = 2000\<rparr>\<rparr>)) \<and>
   show_cmd_widget (disp_error ''e'' fresh_statusbar) =
     fresh_statusbar\<lparr>text_queue := [(True, ''e'')], stack_current := Cmd\<rparr> \<and>
   reachable example_toolkit
     (fresh_statusbar\<lparr>text_queue := [(True, ''e'')], stack_current := Cmd\<rparr>) \<and>
   text_queue (fresh_statusbar\<lparr>text_queue := [(True, ''e'')], stack_current := Cmd\<rparr>) \<noteq> [] \<and>
   \<not> isActive (text_pop_timer
     (fresh_statusbar\<lparr>text_queue := [(True, ''e'')], stack_current := Cmd\<rparr>))"
proof -
  have "reachable example_toolkit
     (fresh_statusbar\<lparr>error := True, txt_widget := \<lparr>temptext = ''e'', normaltext = ''''\<rparr>,
        text_pop_timer := \<lparr>active = True, interval = 2000\<rparr>\<rparr>)"
    using reachable_fresh run_error_tick by (rule run_reachable)
  moreover have "reachable example_toolkit
     (fresh_statusbar\<lparr>text_queue := [(True, ''e'')], stack_current := Cmd\<rparr>)"
    using reachable_fresh run_error_show by (rule run_reachable)
  moreover have "pop_text (disp_error ''e'' fresh_statusbar) =
     Inr (fresh_statusbar\<lparr>error := True, txt_widget := \<lparr>temptext = ''e'', normaltext = ''''\<rparr>,
            text_pop_timer := \<lparr>active = True, interval = 2000\<rparr>\<rparr>)"
    by (simp add: disp_error_eq pop_text_def popleft_def set_temptext_def set_error_def)
  moreover have "show_cmd_widget (disp_error ''e'' fresh_statusbar) =
     fresh_statusbar\<lparr>text_queue := [(True, ''e'')], stack_current := Cmd\<rparr>"
    by (simp add: disp_error_eq show_cmd_widget_def timer_stop_def)
  moreover have "isActive (text_pop_timer (disp_error ''e'' fresh_statusbar))"
    by (simp add: disp_error_eq isActive_def)
  ultimately show ?thesis using init_fresh by (simp add: isActive_def)
qed

text \<open>
  C1, amended: in every reachable state with a non-empty queue, the pop timer is active
  or the command widget is the current widget of the stack. (The timer may be active
  while the queue is empty.)
\<close>

theorem queue_nonempty_timer_or_cmd:
  assumes "reachable tk s" and "text_queue s \<noteq> []"
  shows "isActive (text_pop_timer s) \<or> stack_current s = Cmd"
  using reachable_inv [OF assms(1)] assms(2) by simp

theorem queue_nonempty_timer_or_cmd_witness:
  "reachable example_toolkit
     (fresh_statusbar\<lparr>text_queue := [(True, ''e'')], stack_current := Cmd\<rparr>) \<and>
   text_queue (fresh_statusbar\<lparr>text_queue := [(True, ''e'')], stack_current := Cmd\<rparr>) \<noteq> [] \<and>
   (isActive (text_pop_timer
      (fresh_statusbar\<lparr>text_queue := [(True, ''e'')], stack_current := Cmd\<rparr>)) \<or>
    stack_current (fresh_statusbar\<lparr>text_queue := [(True, ''e'')], stack_current := Cmd\<rparr>) = Cmd)"
proof -
  have r: "reachable example_toolkit
     (fresh_statusbar\<lparr>text_queue := [(True, ''e'')], stack_current := Cmd\<rparr>)"
    using reachable_fresh run_error_show by (rule run_reachable)
  have q: "text_queue (fresh_statusbar\<lparr>text_queue := [(True, ''e'')], stack_current := Cmd\<rparr>)
             \<noteq> []"
    by simp
  from queue_nonempty_timer_or_cmd [OF r q] r q show ?thesis by blast
qed

text \<open>
  C3, as stated, fails: the tick that pops the only pending message leaves the queue
  empty and the timer active.
\<close>

theorem drained_queue_timer_counterexample:
  "pop_text (fresh_statusbar\<lparr>text_queue := [(True, ''e'')],
                text_pop_timer := \<lparr>active = True, interval = 2000\<rparr>\<rparr>) =
     Inr (fresh_statusbar\<lparr>error := True, txt_widget := \<lparr>temptext = ''e'', normaltext = ''''\<rparr>,
            text_pop_timer := \<lparr>active = True, interval = 2000\<rparr>\<rparr>) \<and>
   text_queue
     (fresh_statusbar\<lparr>error := True, txt_widget := \<lparr>temptext = ''e'', normaltext = ''''\<rparr>,
        text_pop_timer := \<lparr>active = True, interval = 2000\<rparr>\<rparr>) = [] \<and>
   isActive (text_pop_timer
     (fresh_statusbar\<lparr>error := True, txt_widget := \<lparr>temptext = ''e'', normaltext = ''''\<rparr>,
        text_pop_timer := \<lparr>active = True, interval = 2000\<rparr>\<rparr>))"
  by (simp add: pop_text_Cons isActive_def)

text \<open>
  C3, amended: the tick that pops the last pending message displays it and leaves the
  timer as it was; the timer is stopped by the next tick, which finds the queue empty
  and clears the display.
\<close>

theorem last_pop_keeps_timer:
  assumes "text_queue s = [(err, msg)]"
  shows "pop_text s =
           Inr (s\<lparr>text_queue := [], error := err,
                   txt_widget := (txt_widget s)\<lparr>temptext := msg\<rparr>\<rparr>) \<and>
         text_pop_timer (s\<lparr>text_queue := [], error := err,
                   txt_widget := (txt_widget s)\<lparr>temptext := msg\<rparr>\<rparr>) = text_pop_timer s \<and>
         pop_text (s\<lparr>text_queue := [], error := err,
                   txt_widget := (txt_widget s)\<lparr>temptext := msg\<rparr>\<rparr>) =
           Inr (s\<lparr>text_queue := [], error := False,
                   txt_widget := (txt_widget s)\<lparr>temptext := ''''\<rparr>,
                   text_pop_timer := timer_stop (text_pop_timer s)\<rparr>) \<and>
         \<not> isActive (timer_stop (text_pop_timer s))"
  using assms by (simp add: pop_text_Cons pop_text_Nil isActive_def timer_stop_def)

theorem last_pop_keeps_timer_witness:
  "text_queue (fresh_statusbar\<lparr>text_queue := [(True, ''e'')],
                text_pop_timer := \<lparr>active = True, interval = 2000\<rparr>\<rparr>) = [(True, ''e'')] \<and>
   ticks (Suc 0) (fresh_statusbar\<lparr>text_queue := [(True, ''e'')],
                text_pop_timer := \<lparr>active = True, interval = 2000\<rparr>\<rparr>) =
     Inr (fresh_statusbar\<lparr>error := True, txt_widget := \<lparr>temptext = ''e'', normaltext = ''''\<rparr>,
            text_pop_timer := \<lparr>active = True, interval = 2000\<rparr>\<rparr>) \<and>
   ticks (Suc (Suc 0)) (fresh_statusbar\<lparr>text_queue := [(True, ''e'')],
                text_pop_timer := \<lparr>active = True, interval = 2000\<rparr>\<rparr>) =
     Inr fresh_statusbar"
  using last_pop_keeps_timer
    [of "fresh_statusbar\<lparr>text_queue := [(True, ''e'')],
                text_pop_timer := \<lparr>active = True, interval = 2000\<rparr>\<rparr>" True "''e''"]
  by (simp add: timer_stop_def)

section \<open>Signals and the status message slot\<close>

text \<open>
  C7: \<^verbatim>\<open>resizeEvent\<close> appends one \<^verbatim>\<open>resized\<close> signal to the emitted signals, carrying
  the geometry the widget has after the event; \<^verbatim>\<open>moveEvent\<close> appends one \<^verbatim>\<open>moved\<close>
  signal, carrying the position of the event. Neither depends on any condition.
\<close>

theorem resize_move_emit:
  "emitted (resizeEvent base e s) = emitted s @ [Resized (geometry (resizeEvent base e s))] \<and>
   emitted (moveEvent base' e' s) = emitted s @ [Moved (pos e')]"
  by (simp add: resizeEvent_def moveEvent_def Let_def)

text \<open>
  C8: \<^verbatim>\<open>on_statusbar_message(val)\<close> with a non-empty \<open>val\<close> sets the temporary text to
  \<open>val\<close> and changes nothing else; with the empty string it returns the state as it
  was. A temporary text that is not empty is therefore never empty after the call.
\<close>

theorem on_statusbar_message_ignores_empty:
  "(val \<noteq> [] \<longrightarrow>
      on_statusbar_message val s = s\<lparr>txt_widget := (txt_widget s)\<lparr>temptext := val\<rparr>\<rparr> \<and>
      temptext (txt_widget (on_statusbar_message val s)) = val) \<and>
   on_statusbar_message [] s = s \<and>
   (temptext (txt_widget s) \<noteq> [] \<longrightarrow>
      temptext (txt_widget (on_statusbar_message val s)) \<noteq> [])"
  by (simp add: on_statusbar_message_def set_temptext_def)

theorem on_statusbar_message_ignores_empty_witness:
  "''hello'' \<noteq> [] \<and>
   temptext (txt_widget (fresh_statusbar\<lparr>txt_widget := \<lparr>temptext = ''old'', normaltext = ''''\<rparr>\<rparr>))
     \<noteq> [] \<and>
   on_statusbar_message ''hello''
       (fresh_statusbar\<lparr>txt_widget := \<lparr>temptext = ''old'', normaltext = ''''\<rparr>\<rparr>) =
     fresh_statusbar\<lparr>txt_widget := \<lparr>temptext = ''hello'', normaltext = ''''\<rparr>\<rparr> \<and>
   on_statusbar_message []
       (fresh_statusbar\<lparr>txt_widget := \<lparr>temptext = ''old'', normaltext = ''''\<rparr>\<rparr>) =
     fresh_statusbar\<lparr>txt_widget := \<lparr>temptext = ''old'', normaltext = ''''\<rparr>\<rparr>"
  using on_statusbar_message_ignores_empty
    [of "''hello''" "fresh_statusbar\<lparr>txt_widget := \<lparr>temptext = ''old'', normaltext = ''''\<rparr>\<rparr>"]
  by simp

section \<open>Messages are consumed in the order of their arrival\<close>

lemma enqueued_Cons: "enqueued (e # es) = enqueued [e] @ enqueued es"
  by (cases e) simp_all

lemma pop_text_conserves:
  assumes "pop_text s = Inr s'"
  shows "popped s s' @ text_queue s' = text_queue s"
proof (cases "text_queue s")
  case Nil
  with assms show ?thesis by (auto simp add: pop_text_Nil popped_def)
next
  case (Cons m rest)
  with assms show ?thesis by (cases m) (auto simp add: pop_text_Cons popped_def)
qed

lemma hide_cmd_widget_conserves:
  assumes "hide_cmd_widget s = Inr s'"
  shows "popped s s' @ text_queue s' = text_queue s"
proof (cases "text_queue s = [] \<or> isActive (text_pop_timer s)")
  case True
  with assms show ?thesis by (auto simp add: hide_cmd_widget_skip popped_def)
next
  case False
  then obtain err msg rest where "text_queue s = (err, msg) # rest"
    by (cases "text_queue s") auto
  with False assms show ?thesis
    by (auto simp add: hide_cmd_widget_pop popped_def)
qed

lemma step_conserves:
  assumes "step tk s e = Inr s'"
  shows "popped s s' @ text_queue s' = text_queue s @ enqueued [e]"
proof (cases e)
  case (DispError t)
  with assms show ?thesis by (auto simp add: disp_error_eq popped_def)
next
  case (DispTempText t)
  with assms show ?thesis by (auto simp add: disp_temp_text_eq popped_def)
next
  case Tick
  with assms show ?thesis using pop_text_conserves [of s s'] by simp
next
  case ShowCmd
  with assms show ?thesis by (auto simp add: show_cmd_widget_frame popped_def)
next
  case HideCmd
  with assms show ?thesis using hide_cmd_widget_conserves [of s s'] by simp
next
  case (SetText v)
  with assms show ?thesis by (auto simp add: set_text_frame popped_def)
next
  case (ModeEntered m)
  with assms show ?thesis by (auto simp add: on_mode_entered_frame popped_def)
next
  case (ModeLeft m)
  with assms show ?thesis by (auto simp add: on_mode_left_frame popped_def)
next
  case (StatusbarMessage v)
  with assms show ?thesis by (auto simp add: on_statusbar_message_frame popped_def)
next
  case (ConfigChanged cfg sec opt)
  with assms have "on_config_changed cfg sec opt s = Inr s'" by simp
  from on_config_changed_frame [OF this] ConfigChanged show ?thesis
    by (simp add: popped_def)
next
  case (ResizeEvent ev)
  with assms show ?thesis by (auto simp add: resizeEvent_frame popped_def)
next
  case (MoveEvent ev)
  with assms show ?thesis by (auto simp add: moveEvent_frame popped_def)
qed

lemma run_conserves:
  "run tk es s = Inr s' \<Longrightarrow>
   consumed tk es s @ text_queue s' = text_queue s @ enqueued es"
proof (induction es arbitrary: s)
  case Nil
  then show ?case by simp
next
  case (Cons e es)
  from Cons.prems obtain s1 where s1: "step tk s e = Inr s1"
    by (cases "step tk s e") auto
  with Cons.prems have "run tk es s1 = Inr s'" by simp
  then have "consumed tk es s1 @ text_queue s' = text_queue s1 @ enqueued es"
    by (rule Cons.IH)
  then have "consumed tk (e # es) s @ text_queue s' =
               (popped s s1 @ text_queue s1) @ enqueued es"
    using s1 by simp
  also have "\<dots> = (text_queue s @ enqueued [e]) @ enqueued es"
    using step_conserves [OF s1] by simp
  also have "\<dots> = text_queue s @ enqueued (e # es)"
    using enqueued_Cons [of e es] by simp
  finally show ?case .
qed

lemma enqueued_append: "enqueued (es @ es') = enqueued es @ enqueued es'"
proof (induction es)
  case Nil
  then show ?case by simp
next
  case (Cons e es)
  then show ?case
    using enqueued_Cons [of e "es @ es'"] enqueued_Cons [of e es] by simp
qed

lemma example_run:
  "run example_toolkit
     [DispError ''a'', DispTempText ''b'', Tick, ShowCmd, DispError ''c'', HideCmd, Tick]
     fresh_statusbar =
   Inr (fresh_statusbar\<lparr>txt_widget := \<lparr>temptext = ''b'', normaltext = ''''\<rparr>,
          text_queue := [(True, ''c'')],
          text_pop_timer := \<lparr>active = True, interval = 2000\<rparr>\<rparr>)"
  by (simp add: disp_error_eq disp_temp_text_eq pop_text_def popleft_def set_temptext_def
      set_error_def show_cmd_widget_def timer_stop_def hide_cmd_widget_def isActive_def)

text \<open>
  C5: \<^verbatim>\<open>disp_error(text)\<close> puts \<open>(True, text)\<close> at the tail of the queue and
  \<^verbatim>\<open>disp_temp_text(text)\<close> puts \<open>(False, text)\<close> there; the entries already queued stay
  as they are and in their order. So after any list \<open>ms\<close> of producer calls the queue is
  the old queue followed by \<open>ms\<close>, and the tick number \<open>k + 1\<close> after that displays
  entry number \<open>k\<close> of this sequence and leaves the entries behind it. More generally,
  for every run of events that returns (a run ends early when \<^verbatim>\<open>on_config_changed\<close>
  raises \<^verbatim>\<open>OverflowError\<close>), the messages it has taken out of the queue, in the order in
  which they were written to the display, followed by the messages still queued, are
  the messages queued at the start followed by those handed in: the messages are
  consumed in the order in which they were enqueued.
\<close>

theorem producers_append_fifo:
  "text_queue (disp_error t s) = text_queue s @ [(True, t)] \<and>
   text_queue (disp_temp_text t s) = text_queue s @ [(False, t)] \<and>
   text_queue (produce_all ms s) = text_queue s @ ms \<and>
   (\<forall>k < length (text_queue s @ ms).
      \<exists>s'. ticks (Suc k) (produce_all ms s) = Inr s' \<and>
           (error s', temptext (txt_widget s')) = (text_queue s @ ms) ! k \<and>
           text_queue s' = drop (Suc k) (text_queue s @ ms)) \<and>
   (\<forall>s'. run tk es s = Inr s' \<longrightarrow>
         consumed tk es s @ text_queue s' = text_queue s @ enqueued es)"
proof -
  have "\<exists>s'. ticks (Suc k) (produce_all ms s) = Inr s' \<and>
           (error s', temptext (txt_widget s')) = (text_queue s @ ms) ! k \<and>
           text_queue s' = drop (Suc k) (text_queue s @ ms)"
    if "k < length (text_queue s @ ms)" for k
    using ticks_fifo [of k "produce_all ms s"] that
    by (simp only: produce_all_queue)
  moreover have "consumed tk es s @ text_queue s' = text_queue s @ enqueued es"
    if "run tk es s = Inr s'" for s'
    using that by (rule run_conserves)
  ultimately show ?thesis
    by (simp add: disp_error_eq disp_temp_text_eq produce_all_queue del: ticks.simps)
qed

theorem producers_append_fifo_witness:
  "Suc 0 < length (text_queue (fresh_statusbar\<lparr>text_queue := [(False, ''a'')]\<rparr>) @
                    [(True, ''b''), (False, ''c'')]) \<and>
   text_queue (produce_all [(True, ''b''), (False, ''c'')]
                 (fresh_statusbar\<lparr>text_queue := [(False, ''a'')]\<rparr>)) =
     [(False, ''a''), (True, ''b''), (False, ''c'')] \<and>
   (\<exists>s'. ticks (Suc (Suc 0))
            (produce_all [(True, ''b''), (False, ''c'')]
               (fresh_statusbar\<lparr>text_queue := [(False, ''a'')]\<rparr>)) = Inr s' \<and>
         (error s', temptext (txt_widget s')) = (True, ''b'') \<and>
         text_queue s' = [(False, ''c'')]) \<and>
   run example_toolkit
     [DispError ''a'', DispTempText ''b'', Tick, ShowCmd, DispError ''c'', HideCmd, Tick]
     fresh_statusbar =
   Inr (fresh_statusbar\<lparr>txt_widget := \<lparr>temptext = ''b'', normaltext = ''''\<rparr>,
          text_queue := [(True, ''c'')],
          text_pop_timer := \<lparr>active = True, interval = 2000\<rparr>\<rparr>) \<and>
   consumed example_toolkit
     [DispError ''a'', DispTempText ''b'', Tick, ShowCmd, DispError ''c'', HideCmd, Tick]
     fresh_statusbar @ [(True, ''c'')] =
   [(True, ''a''), (False, ''b''), (True, ''c'')]"
proof -
  note inst = producers_append_fifo
    [of "''x''" "fresh_statusbar\<lparr>text_queue := [(False, ''a'')]\<rparr>"
      "[(True, ''b''), (False, ''c'')]" example_toolkit "[]"]
  have k: "Suc 0 < length (text_queue (fresh_statusbar\<lparr>text_queue := [(False, ''a'')]\<rparr>) @
                    [(True, ''b''), (False, ''c'')])"
    by simp
  from inst have "\<forall>k < length (text_queue (fresh_statusbar\<lparr>text_queue := [(False, ''a'')]\<rparr>) @
                    [(True, ''b''), (False, ''c'')]).
      \<exists>s'. ticks (Suc k) (produce_all [(True, ''b''), (False, ''c'')]
               (fresh_statusbar\<lparr>text_queue := [(False, ''a'')]\<rparr>)) = Inr s' \<and>
           (error s', temptext (txt_widget s')) =
             (text_queue (fresh_statusbar\<lparr>text_queue := [(False, ''a'')]\<rparr>) @
                [(True, ''b''), (False, ''c'')]) ! k \<and>
           text_queue s' =
             drop (Suc k) (text_queue (fresh_statusbar\<lparr>text_queue := [(False, ''a'')]\<rparr>) @
                [(True, ''b''), (False, ''c'')])"
    by blast
  from this [rule_format, OF k]
  have a: "\<exists>s'. ticks (Suc (Suc 0))
            (produce_all [(True, ''b''), (False, ''c'')]
               (fresh_statusbar\<lparr>text_queue := [(False, ''a'')]\<rparr>)) = Inr s' \<and>
         (error s', temptext (txt_widget s')) = (True, ''b'') \<and>
         text_queue s' = [(False, ''c'')]"
    by (simp del: ticks.simps)
  from inst have b: "text_queue (produce_all [(True, ''b''), (False, ''c'')]
                 (fresh_statusbar\<lparr>text_queue := [(False, ''a'')]\<rparr>)) =
     [(False, ''a''), (True, ''b''), (False, ''c'')]"
    by simp
  note inst2 = producers_append_fifo
    [of "''x''" fresh_statusbar "[]" example_toolkit
      "[DispError ''a'', DispTempText ''b'', Tick, ShowCmd, DispError ''c'', HideCmd, Tick]"]
  from inst2 have "\<forall>s'. run example_toolkit
     [DispError ''a'', DispTempText ''b'', Tick, ShowCmd, DispError ''c'', HideCmd, Tick]
     fresh_statusbar = Inr s' \<longrightarrow>
     consumed example_toolkit
       [DispError ''a'', DispTempText ''b'', Tick, ShowCmd, DispError ''c'', HideCmd, Tick]
       fresh_statusbar @ text_queue s' =
     text_queue fresh_statusbar @
       enqueued [DispError ''a'', DispTempText ''b'', Tick, ShowCmd, DispError ''c'', HideCmd, Tick]"
    by blast
  from this [rule_format, OF example_run]
  have c: "consumed example_toolkit
     [DispError ''a'', DispTempText ''b'', Tick, ShowCmd, DispError ''c'', HideCmd, Tick]
     fresh_statusbar @ [(True, ''c'')] =
   [(True, ''a''), (False, ''b''), (True, ''c'')]"
    by (simp del: consumed.simps)
  from a b c k example_run show ?thesis by blast
qed

section \<open>The command widget and the display state\<close>

lemma hide_after_show:
  assumes "text_queue s = (err, msg) # rest"
  shows "hide_cmd_widget (show_cmd_widget s) =
           Inr (s\<lparr>text_queue := rest, error := err,
                   txt_widget := (txt_widget s)\<lparr>temptext := msg\<rparr>,
                   text_pop_timer := (text_pop_timer s)\<lparr>active := True\<rparr>,
                   stack_current := Txt\<rparr>)"
proof -
  have "text_queue (show_cmd_widget s) = (err, msg) # rest"
    and "\<not> isActive (text_pop_timer (show_cmd_widget s))"
    using assms by (simp_all add: show_cmd_widget_frame)
  from hide_cmd_widget_pop [OF this] show ?thesis
    by (simp add: show_cmd_widget_def timer_stop_def)
qed

text \<open>
  The two methods of the command widget, as C9 describes them: \<^verbatim>\<open>_show_cmd_widget\<close>
  stops the timer, makes the command widget current and leaves the queue (and everything
  else) unchanged; \<^verbatim>\<open>_hide_cmd_widget\<close>, called with a non-empty queue and an inactive
  timer, pops the head, displays it, starts the timer and makes the text widget current.
  So when nothing happens between the showing and the hiding, the head of the queue is
  on view afterwards and the rest is still queued.
\<close>

lemma cmd_widget_show_hide:
  "show_cmd_widget s =
     s\<lparr>text_pop_timer := timer_stop (text_pop_timer s), stack_current := Cmd\<rparr> \<and>
   text_queue (show_cmd_widget s) = text_queue s \<and>
   \<not> isActive (text_pop_timer (show_cmd_widget s)) \<and>
   (text_queue s \<noteq> [] \<and> \<not> isActive (text_pop_timer s) \<longrightarrow>
      hide_cmd_widget s =
        Inr (s\<lparr>text_queue := tl (text_queue s),
                error := fst (hd (text_queue s)),
                txt_widget := (txt_widget s)\<lparr>temptext := snd (hd (text_queue s))\<rparr>,
                text_pop_timer := timer_start (text_pop_timer s),
                stack_current := Txt\<rparr>) \<and>
      isActive (timer_start (text_pop_timer s))) \<and>
   (text_queue s \<noteq> [] \<longrightarrow>
      (\<exists>s'. hide_cmd_widget (show_cmd_widget s) = Inr s' \<and>
            text_queue s = (error s', temptext (txt_widget s')) # text_queue s' \<and>
            isActive (text_pop_timer s') \<and> stack_current s' = Txt))"
proof -
  have a: "hide_cmd_widget s =
        Inr (s\<lparr>text_queue := tl (text_queue s),
                error := fst (hd (text_queue s)),
                txt_widget := (txt_widget s)\<lparr>temptext := snd (hd (text_queue s))\<rparr>,
                text_pop_timer := timer_start (text_pop_timer s),
                stack_current := Txt\<rparr>)"
    if "text_queue s \<noteq> []" and "\<not> isActive (text_pop_timer s)"
  proof -
    from that(1) obtain err msg rest where q: "text_queue s = (err, msg) # rest"
      by (cases "text_queue s") auto
    from hide_cmd_widget_pop [OF q that(2)] show ?thesis
      by (simp add: q timer_start_def)
  qed
  have b: "\<exists>s'. hide_cmd_widget (show_cmd_widget s) = Inr s' \<and>
            text_queue s = (error s', temptext (txt_widget s')) # text_queue s' \<and>
            isActive (text_pop_timer s') \<and> stack_current s' = Txt"
    if "text_queue s \<noteq> []"
  proof -
    from that obtain err msg rest where q: "text_queue s = (err, msg) # rest"
      by (cases "text_queue s") auto
    show ?thesis
      by (simp add: hide_after_show [OF q] q isActive_def)
  qed
  have d: "isActive (timer_start (text_pop_timer s))"
    by (simp add: isActive_def timer_start_def)
  have f: "show_cmd_widget s =
     s\<lparr>text_pop_timer := timer_stop (text_pop_timer s), stack_current := Cmd\<rparr>"
    by (simp add: show_cmd_widget_def)
  have c2: "text_queue (show_cmd_widget s) = text_queue s"
    and c3: "\<not> isActive (text_pop_timer (show_cmd_widget s))"
    by (simp_all add: show_cmd_widget_frame)
  have c4: "text_queue s \<noteq> [] \<and> \<not> isActive (text_pop_timer s) \<longrightarrow>
      hide_cmd_widget s =
        Inr (s\<lparr>text_queue := tl (text_queue s),
                error := fst (hd (text_queue s)),
                txt_widget := (txt_widget s)\<lparr>temptext := snd (hd (text_queue s))\<rparr>,
                text_pop_timer := timer_start (text_pop_timer s),
                stack_current := Txt\<rparr>) \<and>
      isActive (timer_start (text_pop_timer s))"
    using a d by blast
  have c5: "text_queue s \<noteq> [] \<longrightarrow>
      (\<exists>s'. hide_cmd_widget (show_cmd_widget s) = Inr s' \<and>
            text_queue s = (error s', temptext (txt_widget s')) # text_queue s' \<and>
            isActive (text_pop_timer s') \<and> stack_current s' = Txt)"
    using b by blast
  show ?thesis
    by (intro conjI) (rule f c2 c3 c4 c5)+
qed

text \<open>
  C9: the code does not keep every pending message across a command-entry interlude.
  \<^verbatim>\<open>disp_error\<close> and \<^verbatim>\<open>disp_temp_text\<close> start the timer whichever widget is current,
  which undoes the \<^verbatim>\<open>stop()\<close> of \<^verbatim>\<open>_show_cmd_widget\<close>. In the run below the widget is
  constructed, \<open>a\<close> and \<open>b\<close> are handed in, the command widget is shown, \<open>x\<close> is handed
  in, the running timer ticks twice and the command widget is hidden. Each entry of
  \<open>views\<close> gives the current widget, whether the timer runs, the error flag and the
  temporary text after one step: \<open>a\<close> is taken out of the queue and written to the
  text widget while the command widget is current, \<open>b\<close> overwrites it, and
  \<^verbatim>\<open>_hide_cmd_widget\<close> finds the timer active and pops nothing, so \<open>a\<close> is never on
  view. The first run, without the producer call, shows \<open>a\<close> once the command widget
  is hidden.
\<close>

theorem interlude_producer_hides_message:
  "init 2000 \<lparr>temptext = '''', normaltext = ''''\<rparr> (0, 0, 800, 20) = Inr fresh_statusbar \<and>
   views example_toolkit
     [DispError ''a'', DispTempText ''b'', ShowCmd, HideCmd] fresh_statusbar =
     [(Txt, True, False, ''''), (Txt, True, False, ''''), (Cmd, False, False, ''''),
      (Txt, True, True, ''a'')] \<and>
   views example_toolkit
     [DispError ''a'', DispTempText ''b'', ShowCmd, DispTempText ''x'', Tick, Tick, HideCmd]
     fresh_statusbar =
     [(Txt, True, False, ''''), (Txt, True, False, ''''), (Cmd, False, False, ''''),
      (Cmd, True, False, ''''), (Cmd, True, True, ''a''), (Cmd, True, False, ''b''),
      (Txt, True, False, ''b'')] \<and>
   consumed example_toolkit
     [DispError ''a'', DispTempText ''b'', ShowCmd, DispTempText ''x'', Tick, Tick, HideCmd]
     fresh_statusbar = [(True, ''a''), (False, ''b'')] \<and>
   run example_toolkit
     [DispError ''a'', DispTempText ''b'', ShowCmd, DispTempText ''x'', Tick, Tick, HideCmd]
     fresh_statusbar =
     Inr (fresh_statusbar\<lparr>txt_widget := \<lparr>temptext = ''b'', normaltext = ''''\<rparr>,
            text_queue := [(False, ''x'')],
            text_pop_timer := \<lparr>active = True, interval = 2000\<rparr>\<rparr>)"
proof -
  have v1: "views example_toolkit
     [DispError ''a'', DispTempText ''b'', ShowCmd, HideCmd] fresh_statusbar =
     [(Txt, True, False, ''''), (Txt, True, False, ''''), (Cmd, False, False, ''''),
      (Txt, True, True, ''a'')]"
    by (simp add: view_def disp_error_eq disp_temp_text_eq pop_text_def popleft_def
        set_temptext_def set_error_def show_cmd_widget_def timer_stop_def timer_start_def
        hide_cmd_widget_def isActive_def)
  have v2: "views example_toolkit
     [DispError ''a'', DispTempText ''b'', ShowCmd, DispTempText ''x'', Tick, Tick, HideCmd]
     fresh_statusbar =
     [(Txt, True, False, ''''), (Txt, True, False, ''''), (Cmd, False, False, ''''),
      (Cmd, True, False, ''''), (Cmd, True, True, ''a''), (Cmd, True, False, ''b''),
      (Txt, True, False, ''b'')]"
    by (simp add: view_def disp_error_eq disp_temp_text_eq pop_text_def popleft_def
        set_temptext_def set_error_def show_cmd_widget_def timer_stop_def timer_start_def
        hide_cmd_widget_def isActive_def)
  have c: "consumed example_toolkit
     [DispError ''a'', DispTempText ''b'', ShowCmd, DispTempText ''x'', Tick, Tick, HideCmd]
     fresh_statusbar = [(True, ''a''), (False, ''b'')]"
    by (simp add: popped_def disp_error_eq disp_temp_text_eq pop_text_def popleft_def
        set_temptext_def set_error_def show_cmd_widget_def timer_stop_def timer_start_def
        hide_cmd_widget_def isActive_def)
  have r: "run example_toolkit
     [DispError ''a'', DispTempText ''b'', ShowCmd, DispTempText ''x'', Tick, Tick, HideCmd]
     fresh_statusbar =
     Inr (fresh_statusbar\<lparr>txt_widget := \<lparr>temptext = ''b'', normaltext = ''''\<rparr>,
            text_queue := [(False, ''x'')],
            text_pop_timer := \<lparr>active = True, interval = 2000\<rparr>\<rparr>)"
    by (simp add: disp_error_eq disp_temp_text_eq pop_text_def popleft_def
        set_temptext_def set_error_def show_cmd_widget_def timer_stop_def timer_start_def
        hide_cmd_widget_def isActive_def)
  from init_fresh v1 v2 c r show ?thesis by (intro conjI)
qed

lemma pop_text_or_skip_display:
  assumes "hide_cmd_widget s = Inr s'"
  shows "(error s' = error s \<and> temptext (txt_widget s') = temptext (txt_widget s)) \<or>
         (\<exists>s1. pop_text s = Inr s1 \<and> error s' = error s1 \<and>
               temptext (txt_widget s') = temptext (txt_widget s1))"
proof (cases "text_queue s = [] \<or> isActive (text_pop_timer s)")
  case True
  with assms show ?thesis by (auto simp add: hide_cmd_widget_skip)
next
  case False
  then obtain err msg rest where q: "text_queue s = (err, msg) # rest"
    by (cases "text_queue s") auto
  with False assms show ?thesis
    by (auto simp add: hide_cmd_widget_pop pop_text_Cons)
qed

lemma step_display:
  assumes "step tk s e = Inr s'"
    and "error s' \<noteq> error s \<or> temptext (txt_widget s') \<noteq> temptext (txt_widget s)"
  shows "e = Tick \<or> (\<exists>v. e = StatusbarMessage v) \<or>
         (e = HideCmd \<and>
          (\<exists>s1. pop_text s = Inr s1 \<and> error s' = error s1 \<and>
                temptext (txt_widget s') = temptext (txt_widget s1)))"
proof (cases e)
  case (DispError t)
  with assms show ?thesis by (auto simp add: disp_error_eq)
next
  case (DispTempText t)
  with assms show ?thesis by (auto simp add: disp_temp_text_eq)
next
  case Tick
  then show ?thesis by simp
next
  case ShowCmd
  with assms show ?thesis by (auto simp add: show_cmd_widget_frame)
next
  case HideCmd
  with assms show ?thesis using pop_text_or_skip_display [of s s'] by auto
next
  case (SetText v)
  with assms show ?thesis by (auto simp add: set_text_frame)
next
  case (ModeEntered m)
  with assms show ?thesis by (auto simp add: on_mode_entered_frame)
next
  case (ModeLeft m)
  with assms show ?thesis by (auto simp add: on_mode_left_frame)
next
  case (StatusbarMessage v)
  then show ?thesis by simp
next
  case (ConfigChanged cfg sec opt)
  with assms have "on_config_changed cfg sec opt s = Inr s'" by simp
  from on_config_changed_frame [OF this] assms(2) show ?thesis by simp
next
  case (ResizeEvent ev)
  with assms show ?thesis by (auto simp add: resizeEvent_frame)
next
  case (MoveEvent ev)
  with assms show ?thesis by (auto simp add: moveEvent_frame)
qed

text \<open>
  C10: \<^verbatim>\<open>disp_error\<close> and \<^verbatim>\<open>disp_temp_text\<close> change the queue and the timer only; the
  error flag and the temporary text are as before. Of all events, only a tick
  (\<^verbatim>\<open>_pop_text\<close>) and \<^verbatim>\<open>on_statusbar_message\<close> can change the error flag or the temporary
  text, apart from \<^verbatim>\<open>_hide_cmd_widget\<close>, which changes them only by calling
  \<^verbatim>\<open>_pop_text\<close>.
\<close>

theorem producers_keep_display:
  "disp_error t s =
     s\<lparr>text_queue := text_queue s @ [(True, t)],
       text_pop_timer := timer_start (text_pop_timer s)\<rparr> \<and>
   disp_temp_text t s =
     s\<lparr>text_queue := text_queue s @ [(False, t)],
       text_pop_timer := timer_start (text_pop_timer s)\<rparr> \<and>
   error (disp_error t s) = error s \<and>
   temptext (txt_widget (disp_error t s)) = temptext (txt_widget s) \<and>
   error (disp_temp_text t s) = error s \<and>
   temptext (txt_widget (disp_temp_text t s)) = temptext (txt_widget s) \<and>
   (\<forall>e s'. step tk s e = Inr s' \<and>
       (error s' \<noteq> error s \<or> temptext (txt_widget s') \<noteq> temptext (txt_widget s)) \<longrightarrow>
       e = Tick \<or> (\<exists>v. e = StatusbarMessage v) \<or>
       (e = HideCmd \<and>
        (\<exists>s1. pop_text s = Inr s1 \<and> error s' = error s1 \<and>
              temptext (txt_widget s') = temptext (txt_widget s1))))"
proof -
  have "e = Tick \<or> (\<exists>v. e = StatusbarMessage v) \<or>
       (e = HideCmd \<and>
        (\<exists>s1. pop_text s = Inr s1 \<and> error s' = error s1 \<and>
              temptext (txt_widget s') = temptext (txt_widget s1)))"
    if "step tk s e = Inr s' \<and>
       (error s' \<noteq> error s \<or> temptext (txt_widget s') \<noteq> temptext (txt_widget s))"
    for e s'
    using that step_display [of tk s e s'] by blast
  then show ?thesis
    by (simp add: disp_error_eq disp_temp_text_eq timer_start_def)
qed

theorem producers_keep_display_witness:
  "step example_toolkit
      (fresh_statusbar\<lparr>text_queue := [(True, ''a'')], stack_current := Cmd\<rparr>) HideCmd =
     Inr (fresh_statusbar\<lparr>error := True, txt_widget := \<lparr>temptext = ''a'', normaltext = ''''\<rparr>,
            text_pop_timer := \<lparr>active = True, interval = 2000\<rparr>\<rparr>) \<and>
   error (fresh_statusbar\<lparr>error := True, txt_widget := \<lparr>temptext = ''a'', normaltext = ''''\<rparr>,
            text_pop_timer := \<lparr>active = True, interval = 2000\<rparr>\<rparr>) \<noteq>
     error (fresh_statusbar\<lparr>text_queue := [(True, ''a'')], stack_current := Cmd\<rparr>) \<and>
   (\<exists>s1. pop_text (fresh_statusbar\<lparr>text_queue := [(True, ''a'')], stack_current := Cmd\<rparr>) = Inr s1 \<and>
         error s1 = True \<and> temptext (txt_widget s1) = ''a'') \<and>
   disp_error ''x'' (fresh_statusbar\<lparr>text_queue := [(True, ''a'')], stack_current := Cmd\<rparr>) =
     fresh_statusbar\<lparr>text_queue := [(True, ''a''), (True, ''x'')],
       text_pop_timer := \<lparr>active = True, interval = 2000\<rparr>, stack_current := Cmd\<rparr>"
proof -
  have st: "step example_toolkit
      (fresh_statusbar\<lparr>text_queue := [(True, ''a'')], stack_current := Cmd\<rparr>) HideCmd =
     Inr (fresh_statusbar\<lparr>error := True, txt_widget := \<lparr>temptext = ''a'', normaltext = ''''\<rparr>,
            text_pop_timer := \<lparr>active = True, interval = 2000\<rparr>\<rparr>)"
    by (simp add: hide_cmd_widget_pop isActive_def)
  note inst = producers_keep_display
    [of "''x''" "fresh_statusbar\<lparr>text_queue := [(True, ''a'')], stack_current := Cmd\<rparr>"
      example_toolkit]
  from inst have "\<forall>e s'. step example_toolkit
      (fresh_statusbar\<lparr>text_queue := [(True, ''a'')], stack_current := Cmd\<rparr>) e = Inr s' \<and>
       (error s' \<noteq> error (fresh_statusbar\<lparr>text_queue := [(True, ''a'')], stack_current := Cmd\<rparr>) \<or>
        temptext (txt_widget s') \<noteq>
          temptext (txt_widget (fresh_statusbar\<lparr>text_queue := [(True, ''a'')], stack_current := Cmd\<rparr>))) \<longrightarrow>
       e = Tick \<or> (\<exists>v. e = StatusbarMessage v) \<or>
       (e = HideCmd \<and>
        (\<exists>s1. pop_text (fresh_statusbar\<lparr>text_queue := [(True, ''a'')], stack_current := Cmd\<rparr>) = Inr s1 \<and>
              error s' = error s1 \<and> temptext (txt_widget s') = temptext (txt_widget s1)))"
    by blast
  from this [rule_format, of HideCmd, OF conjI [OF st]]
  have "\<exists>s1. pop_text (fresh_statusbar\<lparr>text_queue := [(True, ''a'')], stack_current := Cmd\<rparr>) = Inr s1 \<and>
         error s1 = True \<and> temptext (txt_widget s1) = ''a''"
    by auto
  with st inst show ?thesis
    by (simp add: timer_start_def)
qed

section \<open>The test tables\<close>

lemma isdigit_simps:
  "isdigit CHR ''0''" "isdigit CHR ''1''" "isdigit CHR ''2''" "isdigit CHR ''3''"
  "isdigit CHR ''4''" "isdigit CHR ''5''" "isdigit CHR ''6''" "isdigit CHR ''7''"
  "isdigit CHR ''8''" "isdigit CHR ''9''"
  "\<not> isdigit CHR ''.''" "\<not> isdigit CHR ''h''" "\<not> isdigit CHR ''m''" "\<not> isdigit CHR ''s''"
  "\<not> isdigit CHR ''-''" "\<not> isdigit CHR ''e''" "\<not> isdigit CHR '' ''"
  by (simp_all add: isdigit_def)

lemma test_elided:
  "elide ell ''foo'' 1 = Inr [ell]"
  "elide ell ''foo'' 3 = Inr ''foo''"
  "elide ell ''foobar'' 3 = Inr (''fo'' @ [ell])"
  by (simp_all add: elide_def)

lemma test_parse_duration:
  "parse_duration ''0'' = Inr 0"
  "parse_duration ''0s'' = Inr 0"
  "parse_duration ''0.5s'' = Inr 500"
  "parse_duration ''59s'' = Inr 59000"
  "parse_duration ''60'' = Inr 60"
  "parse_duration ''60.4s'' = Inr 60400"
  "parse_duration ''1m1s'' = Inr 61000"
  "parse_duration ''1.5m'' = Inr 90000"
  "parse_duration ''1m'' = Inr 60000"
  "parse_duration ''1h'' = Inr 3600000"
  "parse_duration ''0.5h'' = Inr 1800000"
  "parse_duration ''1h1s'' = Inr 3601000"
  "parse_duration ''1h 1s'' = Inr 3601000"
  "parse_duration ''1h1m'' = Inr 3660000"
  "parse_duration ''1h1m1s'' = Inr 3661000"
  "parse_duration ''1h1m10s'' = Inr 3670000"
  "parse_duration ''10h1m10s'' = Inr 36070000"
  by (simp_all add: parse_duration_def str_isdigit_def scan_part_def isdigit_simps isspace_def
      int_of_digits_def digit_val_def tenths_def)

lemma test_parse_duration_invalid:
  "parse_duration ''-1s'' = Inl ValueError"
  "parse_duration ''-1'' = Inl ValueError"
  "parse_duration ''34ss'' = Inl ValueError"
  "parse_duration '''' = Inl ValueError"
  "parse_duration ''h'' = Inl ValueError"
  "parse_duration ''1.s'' = Inl ValueError"
  "parse_duration ''1.1.1s'' = Inl ValueError"
  "parse_duration ''.1s'' = Inl ValueError"
  "parse_duration ''.s'' = Inl ValueError"
  "parse_duration ''10e5s'' = Inl ValueError"
  "parse_duration ''5s10m'' = Inl ValueError"
  by (simp_all add: parse_duration_def str_isdigit_def scan_part_def isdigit_simps isspace_def
      int_of_digits_def digit_val_def tenths_def)

section \<open>Accepted durations are exactly the well-formed ones\<close>

lemma digits_split: "xs = takeWhile isdigit xs @ dropWhile isdigit xs"
  by simp

lemma digits_takeWhile: "list_all isdigit (takeWhile isdigit xs)"
  by (auto simp add: list_all_iff dest: set_takeWhileD)

lemma blanks_takeWhile: "list_all isspace (takeWhile isspace xs)"
  by (auto simp add: list_all_iff dest: set_takeWhileD)

lemma scan_part_shape:
  assumes "scan_part u xs = (p, r)"
  shows "\<exists>part. xs = part @ r \<and> part_shape u part"
proof (cases "p")
  case None
  with assms have "r = xs"
    by (auto simp add: scan_part_def Let_def split: if_splits list.splits)
  then show ?thesis by (simp add: part_shape_def)
next
  case (Some t)
  let ?ds = "takeWhile isdigit xs"
  from Some assms have ne: "?ds \<noteq> []"
    by (auto simp add: scan_part_def Let_def split: if_splits)
  have num: "number_shape ?ds"
    using ne digits_takeWhile [of xs] by (auto simp add: number_shape_def)
  from Some assms ne obtain c r1 where r: "dropWhile isdigit xs = c # r1"
    by (auto simp add: scan_part_def Let_def split: if_splits list.splits)
  have xs: "xs = ?ds @ c # r1"
    using digits_split [of xs] r by simp
  show ?thesis
  proof (cases "c = u")
    case True
    with Some assms ne r have "r = r1"
      by (auto simp add: scan_part_def Let_def)
    with xs True have "xs = (?ds @ [u]) @ r" by simp
    moreover have "part_shape u (?ds @ [u])"
      using num by (auto simp add: part_shape_def)
    ultimately show ?thesis by blast
  next
    case False
    with Some assms ne r obtain f where
      dot: "c = CHR ''.''" and r1: "r1 = f # u # r" and f: "isdigit f"
      by (auto simp add: scan_part_def Let_def split: if_splits list.splits)
    have "number_shape (?ds @ [CHR ''.'', f])"
      using ne digits_takeWhile [of xs] f by (auto simp add: number_shape_def)
    then have "part_shape u ((?ds @ [CHR ''.'', f]) @ [u])"
      unfolding part_shape_def by blast
    moreover from xs dot r1 have "xs = ((?ds @ [CHR ''.'', f]) @ [u]) @ r" by simp
    ultimately show ?thesis by blast
  qed
qed

lemma parse_duration_sound:
  assumes "parse_duration d = Inr v"
  shows "duration_shape d"
proof (cases "str_isdigit d")
  case True
  then show ?thesis by (simp add: duration_shape_def)
next
  case False
  obtain hours r1 where h: "scan_part CHR ''h'' d = (hours, r1)"
    by (cases "scan_part CHR ''h'' d")
  obtain minutes r3 where m: "scan_part CHR ''m'' (dropWhile isspace r1) = (minutes, r3)"
    by (cases "scan_part CHR ''m'' (dropWhile isspace r1)")
  obtain seconds r5 where s: "scan_part CHR ''s'' (dropWhile isspace r3) = (seconds, r5)"
    by (cases "scan_part CHR ''s'' (dropWhile isspace r3)")
  from assms False h m s have fin: "r5 = []" and ne: "d \<noteq> []"
    by (auto simp add: parse_duration_def Let_def split: if_splits)
  from scan_part_shape [OF h] obtain hp where
    hp: "d = hp @ r1" "part_shape CHR ''h'' hp" by blast
  from scan_part_shape [OF m] obtain mp where
    mp: "dropWhile isspace r1 = mp @ r3" "part_shape CHR ''m'' mp" by blast
  from scan_part_shape [OF s] fin obtain sp where
    sp: "dropWhile isspace r3 = sp" "part_shape CHR ''s'' sp" by auto
  have "r1 = takeWhile isspace r1 @ dropWhile isspace r1"
    and "r3 = takeWhile isspace r3 @ dropWhile isspace r3"
    by simp_all
  with hp mp sp have "d = hp @ takeWhile isspace r1 @ mp @ takeWhile isspace r3 @ sp"
    by metis
  with hp mp sp ne show ?thesis
    unfolding duration_shape_def using blanks_takeWhile by blast
qed

lemma digit_not_space: "isdigit c \<Longrightarrow> \<not> isspace c"
  by (auto simp add: isdigit_def isspace_def Let_def)

lemma takeWhile_digits:
  "list_all isdigit i \<Longrightarrow> \<not> isdigit c \<Longrightarrow> takeWhile isdigit (i @ c # rest) = i"
  by (simp add: list_all_iff)

lemma dropWhile_digits:
  "list_all isdigit i \<Longrightarrow> \<not> isdigit c \<Longrightarrow> dropWhile isdigit (i @ c # rest) = c # rest"
  by (simp add: list_all_iff)

lemma scan_part_nondigit:
  assumes "xs = [] \<or> \<not> isdigit (hd xs)"
  shows "scan_part u xs = (None, xs)"
proof -
  from assms have "takeWhile isdigit xs = []"
    by (cases xs) auto
  then show ?thesis by (simp add: scan_part_def)
qed

lemma scan_part_own:
  assumes "number_shape n" and "\<not> isdigit u" and "u \<noteq> CHR ''.''"
  shows "\<exists>t. scan_part u (n @ u # rest) = (Some t, rest)"
proof -
  from assms(1) obtain i where i: "i \<noteq> []" "list_all isdigit i"
    and n: "n = i \<or> (\<exists>f. isdigit f \<and> n = i @ [CHR ''.'', f])"
    by (auto simp add: number_shape_def)
  from n show ?thesis
  proof
    assume "n = i"
    with i assms(2) show ?thesis
      by (simp add: scan_part_def takeWhile_digits dropWhile_digits)
  next
    assume "\<exists>f. isdigit f \<and> n = i @ [CHR ''.'', f]"
    then obtain f where f: "isdigit f" and nf: "n = i @ [CHR ''.'', f]" by blast
    have nd: "\<not> isdigit CHR ''.''" by (simp add: isdigit_def)
    from nf have "n @ u # rest = i @ CHR ''.'' # f # u # rest" by simp
    with i f nd assms(3) show ?thesis
      by (simp add: scan_part_def takeWhile_digits dropWhile_digits)
  qed
qed

lemma scan_part_foreign:
  assumes "number_shape n" and "u' \<noteq> u" and "\<not> isdigit u'" and "u' \<noteq> CHR ''.''"
    and "u \<noteq> CHR ''.''"
  shows "scan_part u (n @ u' # rest) = (None, n @ u' # rest)"
proof -
  from assms(1) obtain i where i: "i \<noteq> []" "list_all isdigit i"
    and n: "n = i \<or> (\<exists>f. isdigit f \<and> n = i @ [CHR ''.'', f])"
    by (auto simp add: number_shape_def)
  from n show ?thesis
  proof
    assume "n = i"
    with i assms show ?thesis
      by (simp add: scan_part_def takeWhile_digits dropWhile_digits)
  next
    assume "\<exists>f. isdigit f \<and> n = i @ [CHR ''.'', f]"
    then obtain f where f: "isdigit f" and nf: "n = i @ [CHR ''.'', f]" by blast
    have nd: "\<not> isdigit CHR ''.''" by (simp add: isdigit_def)
    from nf have "n @ u' # rest = i @ CHR ''.'' # f # u' # rest" by simp
    with i f nd assms show ?thesis
      by (simp add: scan_part_def takeWhile_digits dropWhile_digits)
  qed
qed

lemma part_starts_with_digit:
  assumes "part_shape u p" and "p \<noteq> []"
  shows "isdigit (hd p)"
proof -
  from assms obtain n where "number_shape n" and "p = n @ [u]"
    by (auto simp add: part_shape_def)
  then show ?thesis
    by (auto simp add: number_shape_def neq_Nil_conv)
qed

lemma scan_part_skip:
  assumes "part_shape u' p" and "u' \<noteq> u" and "\<not> isdigit u'" and "u' \<noteq> CHR ''.''"
    and "u \<noteq> CHR ''.''" and "p = [] \<Longrightarrow> rest = [] \<or> \<not> isdigit (hd rest)"
  shows "scan_part u (p @ rest) = (None, p @ rest)"
proof (cases "p = []")
  case True
  with assms(6) show ?thesis by (simp add: scan_part_nondigit)
next
  case False
  with assms(1) obtain n where "number_shape n" and "p = n @ [u']"
    by (auto simp add: part_shape_def)
  with scan_part_foreign [OF this(1) assms(2-5), of rest] show ?thesis by simp
qed

lemma scan_part_take:
  assumes "part_shape u p" and "\<not> isdigit u" and "u \<noteq> CHR ''.''"
    and "p = [] \<Longrightarrow> rest = [] \<or> \<not> isdigit (hd rest)"
  shows "\<exists>t. scan_part u (p @ rest) = (t, rest)"
proof (cases "p = []")
  case True
  with assms(4) show ?thesis by (simp add: scan_part_nondigit)
next
  case False
  with assms(1) obtain n where "number_shape n" and "p = n @ [u]"
    by (auto simp add: part_shape_def)
  with scan_part_own [OF this(1) assms(2,3), of rest] show ?thesis by auto
qed

lemma dropWhile_blanks:
  assumes "list_all isspace w" and "xs = [] \<or> \<not> isspace (hd xs)"
  shows "dropWhile isspace (w @ xs) = xs"
proof -
  from assms(1) have "dropWhile isspace (w @ xs) = dropWhile isspace xs"
    by (simp add: list_all_iff)
  also from assms(2) have "\<dots> = xs" by (cases xs) auto
  finally show ?thesis .
qed

lemma blank_start_nondigit:
  assumes "list_all isspace w" and "w \<noteq> []"
  shows "\<not> isdigit (hd (w @ rest))"
  using assms digit_not_space by (cases w) auto

lemma unit_facts:
  "\<not> isdigit CHR ''h''" "\<not> isdigit CHR ''m''" "\<not> isdigit CHR ''s''"
  "CHR ''h'' \<noteq> CHR ''.''" "CHR ''m'' \<noteq> CHR ''.''" "CHR ''s'' \<noteq> CHR ''.''"
  "CHR ''m'' \<noteq> CHR ''h''" "CHR ''s'' \<noteq> CHR ''h''" "CHR ''s'' \<noteq> CHR ''m''"
  by (simp_all add: isdigit_def)

lemma part_no_space_start:
  assumes "part_shape u p"
  shows "p = [] \<or> \<not> isspace (hd p)"
  using part_starts_with_digit [OF assms] digit_not_space by blast

lemma scan_part_skip_blanks:
  assumes "list_all isspace w" and "part_shape u' p" and "u' \<noteq> u" and "\<not> isdigit u'"
    and "u' \<noteq> CHR ''.''" and "u \<noteq> CHR ''.''"
    and "w = [] \<Longrightarrow> p = [] \<Longrightarrow> scan_part u rest = (None, rest)"
  shows "scan_part u (w @ p @ rest) = (None, w @ p @ rest)"
proof (cases "w = []")
  case False
  with assms(1) have "\<not> isdigit (hd (w @ p @ rest))"
    by (rule blank_start_nondigit)
  then show ?thesis by (simp add: scan_part_nondigit)
next
  case True
  show ?thesis
  proof (cases "p = []")
    case True
    with \<open>w = []\<close> assms(7) show ?thesis by simp
  next
    case False
    with scan_part_skip [OF assms(2-6), of rest] \<open>w = []\<close> show ?thesis by simp
  qed
qed

lemma scan_hours:
  assumes "part_shape CHR ''h'' h" and "list_all isspace w1" and "part_shape CHR ''m'' m"
    and "list_all isspace w2" and "part_shape CHR ''s'' s"
  shows "\<exists>t. scan_part CHR ''h'' (h @ w1 @ m @ w2 @ s) = (t, w1 @ m @ w2 @ s)"
proof (cases "h = []")
  case False
  with scan_part_take [OF assms(1) unit_facts(1) unit_facts(4), of "w1 @ m @ w2 @ s"]
  show ?thesis by simp
next
  case True
  have "scan_part CHR ''h'' (w2 @ s @ []) = (None, w2 @ s @ [])"
    by (rule scan_part_skip_blanks
          [OF assms(4) assms(5) unit_facts(8) unit_facts(3) unit_facts(6) unit_facts(4)])
       (simp add: scan_part_nondigit)
  then have inner: "scan_part CHR ''h'' (w2 @ s) = (None, w2 @ s)" by simp
  have "scan_part CHR ''h'' (w1 @ m @ w2 @ s) = (None, w1 @ m @ w2 @ s)"
    by (rule scan_part_skip_blanks
          [OF assms(2) assms(3) unit_facts(7) unit_facts(2) unit_facts(5) unit_facts(4)])
       (rule inner)
  with True show ?thesis by simp
qed

lemma scan_minutes:
  assumes "list_all isspace w1" and "part_shape CHR ''m'' m"
    and "list_all isspace w2" and "part_shape CHR ''s'' s"
  shows "\<exists>t r3. scan_part CHR ''m'' (dropWhile isspace (w1 @ m @ w2 @ s)) = (t, r3) \<and>
                dropWhile isspace r3 = s"
proof (cases "m = []")
  case False
  with part_no_space_start [OF assms(2)] have "\<not> isspace (hd (m @ w2 @ s))"
    by (cases m) auto
  with assms(1) have r2: "dropWhile isspace (w1 @ m @ w2 @ s) = m @ w2 @ s"
    by (intro dropWhile_blanks) simp_all
  from False scan_part_take [OF assms(2) unit_facts(2) unit_facts(5), of "w2 @ s"]
  obtain t where t: "scan_part CHR ''m'' (m @ w2 @ s) = (t, w2 @ s)" by auto
  have "dropWhile isspace (w2 @ s) = s"
    using assms(3) part_no_space_start [OF assms(4)] by (intro dropWhile_blanks) simp_all
  with r2 t show ?thesis by simp
next
  case True
  have s: "s = [] \<or> \<not> isspace (hd s)"
    using part_no_space_start [OF assms(4)] .
  from assms(1,3) have "list_all isspace (w1 @ w2)" by simp
  from dropWhile_blanks [OF this s] True
  have r2: "dropWhile isspace (w1 @ m @ w2 @ s) = s" by simp
  have "scan_part CHR ''m'' (s @ []) = (None, s @ [])"
    by (rule scan_part_skip
          [OF assms(4) unit_facts(9) unit_facts(3) unit_facts(6) unit_facts(5)])
       simp
  then have t: "scan_part CHR ''m'' s = (None, s)" by simp
  have "dropWhile isspace ([] @ s) = s"
    using s by (intro dropWhile_blanks) simp_all
  with r2 t show ?thesis by simp
qed

lemma scan_seconds:
  assumes "part_shape CHR ''s'' s"
  shows "\<exists>t. scan_part CHR ''s'' s = (t, [])"
  using scan_part_take [OF assms unit_facts(3) unit_facts(6), of "[]"] by simp

lemma parse_duration_complete:
  assumes "duration_shape d"
  shows "\<exists>v. parse_duration d = Inr v"
proof (cases "str_isdigit d")
  case True
  then show ?thesis by (simp add: parse_duration_def)
next
  case False
  with assms obtain h w1 m w2 s where
    d: "d = h @ w1 @ m @ w2 @ s" and ne: "d \<noteq> []"
    and sh: "part_shape CHR ''h'' h" "list_all isspace w1" "part_shape CHR ''m'' m"
      "list_all isspace w2" "part_shape CHR ''s'' s"
    unfolding duration_shape_def by blast
  from scan_hours [OF sh] d obtain t1 where
    1: "scan_part CHR ''h'' d = (t1, w1 @ m @ w2 @ s)" by auto
  from scan_minutes [OF sh(2-5)] obtain t2 r3 where
    2: "scan_part CHR ''m'' (dropWhile isspace (w1 @ m @ w2 @ s)) = (t2, r3)"
    and 3: "dropWhile isspace r3 = s" by blast
  from scan_seconds [OF sh(5)] obtain t3 where
    4: "scan_part CHR ''s'' s = (t3, [])" by blast
  from False ne 1 2 3 4 show ?thesis
    by (simp add: parse_duration_def)
qed

lemma parse_duration_error: "parse_duration d = Inl e \<Longrightarrow> e = ValueError"
  by (auto simp add: parse_duration_def Let_def split: if_splits prod.splits)

lemma parse_duration_iff: "parse_duration d = Inl ValueError \<longleftrightarrow> \<not> duration_shape d"
proof
  assume "parse_duration d = Inl ValueError"
  then show "\<not> duration_shape d"
    using parse_duration_complete [of d] by auto
next
  assume n: "\<not> duration_shape d"
  show "parse_duration d = Inl ValueError"
  proof (cases "parse_duration d")
    case (Inl e)
    then show ?thesis using parse_duration_error by simp
  next
    case (Inr v)
    with n parse_duration_sound show ?thesis by blast
  qed
qed

text \<open>
  C6: eliding any text to a length of zero raises \<^verbatim>\<open>ValueError\<close>; and
  \<^verbatim>\<open>parse_duration\<close> raises \<^verbatim>\<open>ValueError\<close> for exactly the strings that are malformed,
  that is, that do not have the shape of a duration. The eleven strings of
  \<^verbatim>\<open>test_parse_duration_invalid\<close>, among them \<^verbatim>\<open>-1s\<close>, the empty string, \<^verbatim>\<open>h\<close>,
  \<^verbatim>\<open>34ss\<close> and \<^verbatim>\<open>5s10m\<close>, all raise it.
\<close>

theorem helpers_raise_ValueError:
  "elide ell text 0 = Inl ValueError \<and>
   (parse_duration d = Inl ValueError \<longleftrightarrow> \<not> duration_shape d) \<and>
   parse_duration ''-1s'' = Inl ValueError \<and>
   parse_duration ''-1'' = Inl ValueError \<and>
   parse_duration ''34ss'' = Inl ValueError \<and>
   parse_duration '''' = Inl ValueError \<and>
   parse_duration ''h'' = Inl ValueError \<and>
   parse_duration ''1.s'' = Inl ValueError \<and>
   parse_duration ''1.1.1s'' = Inl ValueError \<and>
   parse_duration ''.1s'' = Inl ValueError \<and>
   parse_duration ''.s'' = Inl ValueError \<and>
   parse_duration ''10e5s'' = Inl ValueError \<and>
   parse_duration ''5s10m'' = Inl ValueError"
  using parse_duration_iff [of d]
  by (simp add: elide_def test_parse_duration_invalid)

theorem helpers_raise_ValueError_witness:
  "elide (8230 :: nat) [102, 111, 111] 0 = Inl ValueError \<and>
   \<not> duration_shape ''5s10m'' \<and> parse_duration ''5s10m'' = Inl ValueError \<and>
   duration_shape ''1h 1s'' \<and> parse_duration ''1h 1s'' = Inr 3601000"
  using helpers_raise_ValueError [of "8230 :: nat" "[102, 111, 111]" "''5s10m''"]
    helpers_raise_ValueError [of "8230 :: nat" "[102, 111, 111]" "''1h 1s''"]
  by (simp add: test_parse_duration)

end
